theory Spec2Isabelle
  imports Main "HOL-Library.Word"
begin

section \<open>Data model of the kTLS receive offload (en_accel/ktls_rx.c)\<close>

text \<open>
  Pointers are addresses into explicit stores: one store for the kzalloc'ed
  offload contexts, one for the kzalloc'ed GET_PSV response buffers. A freed or
  never allocated address is absent from its store; dereferencing it is a fault.
\<close>

type_synonym addr = nat
type_synonym sock = nat
type_synonym u8 = "8 word"
type_synonym u16 = "16 word"
type_synonym u32 = "32 word"
type_synonym u64 = "64 word"

datatype fault = Null_deref | Use_after_free

text \<open>Error numbers of the kernel, returned negated.\<close>

definition ENOMEM :: int where "ENOMEM = 12"
definition ENOSPC :: int where "ENOSPC = 28"

text \<open>struct tls12_crypto_info_aes_gcm_128: the fields the driver copies around.\<close>

record tls12_crypto_info_aes_gcm_128 =
  iv :: "u8 list"
  key :: "u8 list"
  salt :: "u8 list"
  rec_seq :: u64

text \<open>struct accel_rule: the work item (its pending bit) and the installed flow handle.\<close>

record accel_rule =
  rule_work_pending :: bool
  rule_handle :: "nat option"

text \<open>struct mlx5e_ktls_rx_resync_ctx: work item, reference count, and the
  software answer (record number as stored, sequence number).\<close>

record mlx5e_ktls_rx_resync_ctx =
  work_pending :: bool
  refcnt :: int
  sw_rcd_sn_be :: u64
  seq :: u32

text \<open>struct mlx5e_ktls_offload_context_rx. The flags bitmap has the single bit
  MLX5E_PRIV_RX_FLAG_DELETING; add_ctx is the done counter of the completion;
  stats is the pointer to priv->channel_stats[rxq].rq, kept as the index.\<close>

record mlx5e_ktls_offload_context_rx =
  crypto_info :: tls12_crypto_info_aes_gcm_128
  rule :: accel_rule
  sk :: sock
  stats :: nat
  add_ctx :: nat
  tirn :: u32
  key_id :: u32
  rxq :: nat
  flag_deleting :: bool
  resync :: mlx5e_ktls_rx_resync_ctx

text \<open>The fields of struct mlx5_wqe_tls_progress_params_seg that the completion
  handler reads with MLX5_GET, as the device wrote them.\<close>

record tls_progress_params =
  record_tracker_state :: u8
  auth_state :: u8
  hw_resync_tcp_sn :: u32

text \<open>struct mlx5e_ktls_rx_resync_buf; dma_addr is None until dma_map_single succeeded.\<close>

record mlx5e_ktls_rx_resync_buf =
  progress :: tls_progress_params
  dma_addr :: "u64 option"
  buf_priv_rx :: "addr option"

datatype icosq_wqe_type =
  MLX5E_ICOSQ_WQE_UMR_TLS | MLX5E_ICOSQ_WQE_SET_PSV_TLS | MLX5E_ICOSQ_WQE_GET_PSV_TLS

text \<open>struct mlx5e_icosq_wqe_info: the union of tls_set_params.priv_rx and
  tls_get_params.buf is one pointer.\<close>

record mlx5e_icosq_wqe_info =
  wqe_type :: icosq_wqe_type
  num_wqebbs :: u16
  wi_ptr :: addr

text \<open>A work queue entry, as the arguments the driver builds it from:
  mlx5e_ktls_build_static_params (pc, sqn, crypto_info, tirn, key_id, resync_tcp_sn),
  mlx5e_ktls_build_progress_params (pc, sqn, tirn, next_record_tcp_sn), and the GET_PSV
  entry written in place (pc, sqn, psv_index[0] = tirn, va = dma address).\<close>

datatype wqe =
  Set_tls_static_params u16 u32 tls12_crypto_info_aes_gcm_128 u32 u32 u32
| Set_tls_progress_params u16 u32 u32 u32
| Get_tls_progress_params u16 u32 u32 u64

text \<open>struct mlx5e_icosq: producer and consumer counters, queue number, the ring
  and db.wqe_info, both indexed by the producer index.\<close>

record mlx5e_icosq =
  pc :: u16
  cc :: u16
  sqn :: u32
  wq :: "u16 \<rightharpoonup> wqe"
  wqe_info :: "u16 \<rightharpoonup> mlx5e_icosq_wqe_info"

text \<open>The counters of struct mlx5e_rq_stats that this file updates.\<close>

record mlx5e_rq_stats =
  tls_resync_req_skip :: u64
  tls_resync_req_end :: u64
  tls_resync_res_ok :: u64
  tls_resync_res_skip :: u64
  tls_ctx :: u64
  tls_del :: u64

text \<open>Declarations that ktls_rx.c uses from headers outside src/ (en/txrx.h,
  en_accel/ktls_utils.h, en_accel/ktls_txrx.h, byte order): taken as parameters.
  wqc_has_room_for sq n stands for mlx5e_wqc_has_room_for(&sq->wq, sq->cc, sq->pc, n);
  icosq_get_next_pi gives the producer index only; jiffies are natural numbers.\<close>

record ktls_hdr =
  wqc_has_room_for :: "mlx5e_icosq \<Rightarrow> u16 \<Rightarrow> bool"
  stop_room_for_wqe :: "u16 \<Rightarrow> u16"
  icosq_get_next_pi :: "mlx5e_icosq \<Rightarrow> u16 \<Rightarrow> u16"
  SET_STATIC_PARAMS_WQEBBS :: u16
  SET_PROGRESS_PARAMS_WQEBBS :: u16
  TRACKER_STATE_TRACKING :: u8
  AUTH_STATE_NO_OFFLOAD :: u8
  cpu_to_be32 :: "u32 \<Rightarrow> u32"
  msecs_to_jiffies :: "nat \<Rightarrow> nat"

text \<open>The calls leaving the file that the properties below speak about, in the
  order they are made.\<close>

datatype event =
  Kzalloc_ctx addr | Kfree_ctx addr
| Kzalloc_buf addr | Kfree_buf addr
| Create_key u32 | Destroy_key u32
| Create_tir u32 | Destroy_tir u32
| Notify_hw nat u16 u16
| Rx_resync_async_request_end sock u32
| Complete_add_ctx addr
| Refcount_inc addr | Refcount_dec addr
| Queue_resync_work addr bool | Queue_rule_work addr bool
| Cancel_resync_work addr bool | Cancel_rule_work addr bool
| Fs_add_sk sock u32 | Fs_del_sk nat
| Msleep nat
| Netdev_warn int

text \<open>The state the functions of the file act on: the two stores, the driver
  context slot of each socket's TLS context (__tls_driver_ctx, NULL is None), the
  asynchronous ICOSQ and the statistics of each channel, and the calls made so far.\<close>

record world =
  ctx_mem :: "addr \<rightharpoonup> mlx5e_ktls_offload_context_rx"
  buf_mem :: "addr \<rightharpoonup> mlx5e_ktls_rx_resync_buf"
  driver_ctx :: "sock \<Rightarrow> addr option"
  icosq :: "nat \<Rightarrow> mlx5e_icosq"
  channel_stats :: "nat \<Rightarrow> mlx5e_rq_stats"
  trace :: "event list"

definition emit :: "event \<Rightarrow> world \<Rightarrow> world" where
  "emit e w = w\<lparr>trace := trace w @ [e]\<rparr>"

definition stats_upd :: "nat \<Rightarrow> (mlx5e_rq_stats \<Rightarrow> mlx5e_rq_stats) \<Rightarrow> world \<Rightarrow> world" where
  "stats_upd i f w = w\<lparr>channel_stats := (channel_stats w)(i := f (channel_stats w i))\<rparr>"

definition ctx_upd ::
  "addr \<Rightarrow> (mlx5e_ktls_offload_context_rx \<Rightarrow> mlx5e_ktls_offload_context_rx) \<Rightarrow> world \<Rightarrow> world" where
  "ctx_upd p f w = w\<lparr>ctx_mem := (case ctx_mem w p of None \<Rightarrow> ctx_mem w
                                  | Some c \<Rightarrow> (ctx_mem w)(p \<mapsto> f c))\<rparr>"

text \<open>refcount_inc and refcount_dec on resync.refcnt of the context at p. The
  refcount_t helpers are not in src/; the count is an unbounded integer here.\<close>

definition refcount_inc :: "addr \<Rightarrow> world \<Rightarrow> world" where
  "refcount_inc p w =
     emit (Refcount_inc p)
       (ctx_upd p (\<lambda>c. c\<lparr>resync := (resync c)\<lparr>refcnt := refcnt (resync c) + 1\<rparr>\<rparr>) w)"

definition refcount_dec :: "addr \<Rightarrow> world \<Rightarrow> world" where
  "refcount_dec p w =
     emit (Refcount_dec p)
       (ctx_upd p (\<lambda>c. c\<lparr>resync := (resync c)\<lparr>refcnt := refcnt (resync c) - 1\<rparr>\<rparr>) w)"

text \<open>complete(&priv_rx->add_ctx).\<close>

definition complete_add_ctx :: "addr \<Rightarrow> world \<Rightarrow> world" where
  "complete_add_ctx p w = emit (Complete_add_ctx p) (ctx_upd p (\<lambda>c. c\<lparr>add_ctx := add_ctx c + 1\<rparr>) w)"

definition kfree_buf :: "addr \<Rightarrow> world \<Rightarrow> world" where
  "kfree_buf b w = emit (Kfree_buf b) (w\<lparr>buf_mem := (buf_mem w)(b := None)\<rparr>)"

text \<open>mlx5e_get_ktls_rx_priv_ctx and mlx5e_set_ktls_rx_priv_ctx.\<close>

definition mlx5e_get_ktls_rx_priv_ctx :: "sock \<Rightarrow> world \<Rightarrow> addr option" where
  "mlx5e_get_ktls_rx_priv_ctx tlsc w = driver_ctx w tlsc"

definition mlx5e_set_ktls_rx_priv_ctx :: "sock \<Rightarrow> addr option \<Rightarrow> world \<Rightarrow> world" where
  "mlx5e_set_ktls_rx_priv_ctx tlsc priv_rx w =
     w\<lparr>driver_ctx := (driver_ctx w)(tlsc := priv_rx)\<rparr>"

section \<open>Posting descriptors\<close>

text \<open>post_static_params: Inl is the ERR_PTR, Inr the producer index of the entry
  whose control segment is returned, with the queue after the post.\<close>

definition post_static_params ::
  "ktls_hdr \<Rightarrow> mlx5e_icosq \<Rightarrow> addr \<Rightarrow> mlx5e_ktls_offload_context_rx \<Rightarrow> int + (u16 \<times> mlx5e_icosq)" where
  "post_static_params K sq p priv_rx =
     (let n = SET_STATIC_PARAMS_WQEBBS K;
          room = stop_room_for_wqe K n
      in if \<not> wqc_has_room_for K sq room then Inl (- ENOSPC)
         else
           let pi = icosq_get_next_pi K sq n;
               e = Set_tls_static_params (pc sq) (sqn sq) (crypto_info priv_rx) (tirn priv_rx)
                     (key_id priv_rx) (seq (resync priv_rx));
               wi = \<lparr>wqe_type = MLX5E_ICOSQ_WQE_UMR_TLS, num_wqebbs = n, wi_ptr = p\<rparr>
           in Inr (pi, sq\<lparr>pc := pc sq + n, wq := (wq sq)(pi \<mapsto> e),
                         wqe_info := (wqe_info sq)(pi \<mapsto> wi)\<rparr>))"

definition post_progress_params ::
  "ktls_hdr \<Rightarrow> mlx5e_icosq \<Rightarrow> addr \<Rightarrow> mlx5e_ktls_offload_context_rx \<Rightarrow> u32
     \<Rightarrow> int + (u16 \<times> mlx5e_icosq)" where
  "post_progress_params K sq p priv_rx next_record_tcp_sn =
     (let n = SET_PROGRESS_PARAMS_WQEBBS K;
          room = stop_room_for_wqe K n
      in if \<not> wqc_has_room_for K sq room then Inl (- ENOSPC)
         else
           let pi = icosq_get_next_pi K sq n;
               e = Set_tls_progress_params (pc sq) (sqn sq) (tirn priv_rx) next_record_tcp_sn;
               wi = \<lparr>wqe_type = MLX5E_ICOSQ_WQE_SET_PSV_TLS, num_wqebbs = n, wi_ptr = p\<rparr>
           in Inr (pi, sq\<lparr>pc := pc sq + n, wq := (wq sq)(pi \<mapsto> e),
                         wqe_info := (wqe_info sq)(pi \<mapsto> wi)\<rparr>))"

section \<open>Resync\<close>

text \<open>resync_handle_seq_match, for the context stored at p, on the queue of
  channel ch. Returns err and the state.\<close>

definition resync_handle_seq_match :: "ktls_hdr \<Rightarrow> addr \<Rightarrow> nat \<Rightarrow> world \<Rightarrow> fault + (int \<times> world)" where
  "resync_handle_seq_match K p ch w =
     (case ctx_mem w p of
        None \<Rightarrow> Inl Use_after_free
      | Some c0 \<Rightarrow>
          let priv_rx = c0\<lparr>crypto_info := (crypto_info c0)\<lparr>rec_seq := sw_rcd_sn_be (resync c0)\<rparr>\<rparr>;
              w1 = w\<lparr>ctx_mem := (ctx_mem w)(p \<mapsto> priv_rx)\<rparr>
          in case post_static_params K (icosq w1 ch) p priv_rx of
               Inl e \<Rightarrow>
                 Inr (e, stats_upd (stats priv_rx)
                           (\<lambda>s. s\<lparr>tls_resync_res_skip := tls_resync_res_skip s + 1\<rparr>) w1)
             | Inr (pi, sq') \<Rightarrow>
                 let w2 = w1\<lparr>icosq := (icosq w1)(ch := sq')\<rparr>;
                     w3 = emit (Notify_hw ch (pc sq') pi) w2
                 in Inr (0, stats_upd (stats priv_rx)
                              (\<lambda>s. s\<lparr>tls_resync_res_ok := tls_resync_res_ok s + 1\<rparr>) w3))"

text \<open>mlx5e_ktls_handle_get_psv_completion.\<close>

definition mlx5e_ktls_handle_get_psv_completion ::
  "ktls_hdr \<Rightarrow> mlx5e_icosq_wqe_info \<Rightarrow> world \<Rightarrow> fault + world" where
  "mlx5e_ktls_handle_get_psv_completion K wi w =
     (case buf_mem w (wi_ptr wi) of
        None \<Rightarrow> Inl Use_after_free
      | Some buf \<Rightarrow>
         (case buf_priv_rx buf of
            None \<Rightarrow> Inl Null_deref
          | Some p \<Rightarrow>
         (case ctx_mem w p of
            None \<Rightarrow> Inl Use_after_free
          | Some priv_rx \<Rightarrow>
              let w1 =
                (if flag_deleting priv_rx then w
                 else if record_tracker_state (progress buf) \<noteq> TRACKER_STATE_TRACKING K
                         \<or> auth_state (progress buf) \<noteq> AUTH_STATE_NO_OFFLOAD K
                 then stats_upd (stats priv_rx)
                        (\<lambda>s. s\<lparr>tls_resync_req_skip := tls_resync_req_skip s + 1\<rparr>) w
                 else stats_upd (stats priv_rx)
                        (\<lambda>s. s\<lparr>tls_resync_req_end := tls_resync_req_end s + 1\<rparr>)
                        (emit (Rx_resync_async_request_end (sk priv_rx)
                                 (cpu_to_be32 K (hw_resync_tcp_sn (progress buf)))) w))
              in Inr (kfree_buf (wi_ptr wi) (refcount_dec p w1)))))"

text \<open>Modelled from the spec: queue_work of the workqueue core, which is not in
  src/. The hand-off to the background worker succeeds unless the work item is
  already pending; the result says whether it was queued.\<close>

definition queue_resync_work :: "addr \<Rightarrow> world \<Rightarrow> bool \<times> world" where
  "queue_resync_work p w =
     (case ctx_mem w p of
        None \<Rightarrow> (False, w)
      | Some c \<Rightarrow>
          if work_pending (resync c) then (False, emit (Queue_resync_work p False) w)
          else (True, emit (Queue_resync_work p True)
                        (ctx_upd p (\<lambda>c. c\<lparr>resync := (resync c)\<lparr>work_pending := True\<rparr>\<rparr>) w)))"

text \<open>resync_queue_get_psv.\<close>

definition resync_queue_get_psv :: "sock \<Rightarrow> world \<Rightarrow> fault + (bool \<times> world)" where
  "resync_queue_get_psv s w =
     (case mlx5e_get_ktls_rx_priv_ctx s w of
        None \<Rightarrow> Inr (False, w)
      | Some p \<Rightarrow>
         (case ctx_mem w p of
            None \<Rightarrow> Inl Use_after_free
          | Some priv_rx \<Rightarrow>
              if flag_deleting priv_rx then Inr (False, w)
              else
                let w1 = refcount_inc p w;
                    (queued, w2) = queue_resync_work p w1
                in if \<not> queued then Inr (True, refcount_dec p w2) else Inr (True, w2)))"

text \<open>mlx5e_ktls_rx_resync; rcd_sn is the eight bytes read through the pointer.\<close>

definition mlx5e_ktls_rx_resync :: "ktls_hdr \<Rightarrow> sock \<Rightarrow> u32 \<Rightarrow> u64 \<Rightarrow> world \<Rightarrow> fault + world" where
  "mlx5e_ktls_rx_resync K s sq_no rcd_sn w =
     (case mlx5e_get_ktls_rx_priv_ctx s w of
        None \<Rightarrow> Inr w
      | Some p \<Rightarrow>
         (case ctx_mem w p of
            None \<Rightarrow> Inl Use_after_free
          | Some priv_rx \<Rightarrow>
              let w1 = ctx_upd p (\<lambda>c. c\<lparr>resync := (resync c)\<lparr>sw_rcd_sn_be := rcd_sn, seq := sq_no\<rparr>\<rparr>) w
              in case resync_handle_seq_match K p (rxq priv_rx) w1 of
                   Inl f \<Rightarrow> Inl f
                 | Inr (err, w2) \<Rightarrow> Inr w2))"

text \<open>resync_post_get_progress_params. kz is what kzalloc returns (None is NULL),
  dma what dma_map_single returns (None when dma_mapping_error holds). The result
  is the ERR_PTR (Inl) or the producer index of the posted entry (Inr).\<close>

definition resync_post_get_progress_params ::
  "ktls_hdr \<Rightarrow> addr option \<Rightarrow> u64 option \<Rightarrow> nat \<Rightarrow> addr \<Rightarrow> world
     \<Rightarrow> fault + ((int + u16) \<times> world)" where
  "resync_post_get_progress_params K kz dma ch p w =
     (case ctx_mem w p of
        None \<Rightarrow> Inl Use_after_free
      | Some priv_rx \<Rightarrow>
          let err_out = stats_upd (stats priv_rx)
                          (\<lambda>s. s\<lparr>tls_resync_req_skip := tls_resync_req_skip s + 1\<rparr>)
          in case kz of
               None \<Rightarrow> Inr (Inl (- ENOMEM), err_out w)
             | Some b \<Rightarrow>
                 let buf0 = \<lparr>progress = \<lparr>record_tracker_state = 0, auth_state = 0,
                                          hw_resync_tcp_sn = 0\<rparr>,
                             dma_addr = None, buf_priv_rx = None\<rparr>;
                     w1 = emit (Kzalloc_buf b) (w\<lparr>buf_mem := (buf_mem w)(b \<mapsto> buf0)\<rparr>)
                 in case dma of
                      None \<Rightarrow> Inr (Inl (- ENOMEM), err_out w1)
                    | Some a \<Rightarrow>
                        let w2 = w1\<lparr>buf_mem := (buf_mem w1)
                                        (b \<mapsto> buf0\<lparr>dma_addr := Some a, buf_priv_rx := Some p\<rparr>)\<rparr>;
                            sq = icosq w2 ch
                        in if \<not> wqc_has_room_for K sq 1 then Inr (Inl (- ENOSPC), err_out w2)
                           else
                             let pi = icosq_get_next_pi K sq 1;
                                 e = Get_tls_progress_params (pc sq) (sqn sq) (tirn priv_rx) a;
                                 wi = \<lparr>wqe_type = MLX5E_ICOSQ_WQE_GET_PSV_TLS, num_wqebbs = 1,
                                       wi_ptr = b\<rparr>;
                                 sq' = sq\<lparr>pc := pc sq + 1, wq := (wq sq)(pi \<mapsto> e),
                                          wqe_info := (wqe_info sq)(pi \<mapsto> wi)\<rparr>
                             in Inr (Inr pi, w2\<lparr>icosq := (icosq w2)(ch := sq')\<rparr>))"

text \<open>resync_handle_work, the body the worker runs for the work item of the
  context at p.\<close>

definition resync_handle_work ::
  "ktls_hdr \<Rightarrow> addr option \<Rightarrow> u64 option \<Rightarrow> addr \<Rightarrow> world \<Rightarrow> fault + world" where
  "resync_handle_work K kz dma p w =
     (case ctx_mem w p of
        None \<Rightarrow> Inl Use_after_free
      | Some priv_rx \<Rightarrow>
          if flag_deleting priv_rx then Inr (refcount_dec p w)
          else
            (case resync_post_get_progress_params K kz dma (rxq priv_rx) p w of
               Inl f \<Rightarrow> Inl f
             | Inr (Inl err, w1) \<Rightarrow> Inr (refcount_dec p w1)
             | Inr (Inr pi, w1) \<Rightarrow>
                 Inr (emit (Notify_hw (rxq priv_rx) (pc (icosq w1 (rxq priv_rx))) pi) w1)))"

text \<open>resync_init.\<close>

definition resync_init :: "mlx5e_ktls_rx_resync_ctx \<Rightarrow> mlx5e_ktls_rx_resync_ctx" where
  "resync_init r = r\<lparr>work_pending := False, refcnt := 1\<rparr>"

section \<open>Flow-install task\<close>

text \<open>accel_rule_handle_work; fs is what mlx5e_accel_fs_add_sk returns, None when
  IS_ERR_OR_NULL holds of it.\<close>

definition accel_rule_handle_work :: "nat option \<Rightarrow> addr \<Rightarrow> world \<Rightarrow> fault + world" where
  "accel_rule_handle_work fs p w =
     (case ctx_mem w p of
        None \<Rightarrow> Inl Use_after_free
      | Some priv_rx \<Rightarrow>
          let w1 =
            (if flag_deleting priv_rx then w
             else
               let w' = emit (Fs_add_sk (sk priv_rx) (tirn priv_rx)) w
               in case fs of
                    None \<Rightarrow> w'
                  | Some r \<Rightarrow> ctx_upd p (\<lambda>c. c\<lparr>rule := (rule c)\<lparr>rule_handle := Some r\<rparr>\<rparr>) w')
          in Inr (complete_add_ctx p w1))"

text \<open>Modelled from the spec: queue_work of the workqueue core for the
  flow-install work item, as for the resync work item.\<close>

definition queue_rule_work :: "addr \<Rightarrow> world \<Rightarrow> bool \<times> world" where
  "queue_rule_work p w =
     (case ctx_mem w p of
        None \<Rightarrow> (False, w)
      | Some c \<Rightarrow>
          if rule_work_pending (rule c) then (False, emit (Queue_rule_work p False) w)
          else (True, emit (Queue_rule_work p True)
                        (ctx_upd p (\<lambda>c. c\<lparr>rule := (rule c)\<lparr>rule_work_pending := True\<rparr>\<rparr>) w)))"

text \<open>mlx5e_ktls_handle_ctx_completion.\<close>

definition mlx5e_ktls_handle_ctx_completion :: "mlx5e_icosq_wqe_info \<Rightarrow> world \<Rightarrow> fault + world" where
  "mlx5e_ktls_handle_ctx_completion wi w =
     (case ctx_mem w (wi_ptr wi) of
        None \<Rightarrow> Inl Use_after_free
      | Some priv_rx \<Rightarrow>
          if flag_deleting priv_rx then Inr (complete_add_ctx (wi_ptr wi) w)
          else Inr (snd (queue_rule_work (wi_ptr wi) w)))"

section \<open>Creating a context\<close>

text \<open>post_rx_param_wqes on the queue of channel ch. On err_out the static
  parameters entry, when it was posted, stays in the queue.\<close>

definition post_rx_param_wqes ::
  "ktls_hdr \<Rightarrow> nat \<Rightarrow> addr \<Rightarrow> u32 \<Rightarrow> world \<Rightarrow> fault + (int \<times> world)" where
  "post_rx_param_wqes K ch p next_record_tcp_sn w =
     (case ctx_mem w p of
        None \<Rightarrow> Inl Use_after_free
      | Some priv_rx \<Rightarrow>
          let err_out = (\<lambda>w. complete_add_ctx p
                (stats_upd (stats priv_rx)
                   (\<lambda>s. s\<lparr>tls_resync_req_skip := tls_resync_req_skip s + 1\<rparr>) w))
          in case post_static_params K (icosq w ch) p priv_rx of
               Inl e \<Rightarrow> Inr (e, err_out w)
             | Inr (pi1, sq1) \<Rightarrow>
                 let w1 = w\<lparr>icosq := (icosq w)(ch := sq1)\<rparr>
                 in case post_progress_params K sq1 p priv_rx next_record_tcp_sn of
                      Inl e \<Rightarrow> Inr (e, err_out w1)
                    | Inr (pi2, sq2) \<Rightarrow>
                        Inr (0, emit (Notify_hw ch (pc sq2) pi2)
                                  (w1\<lparr>icosq := (icosq w1)(ch := sq2)\<rparr>)))"

text \<open>What mlx5e_ktls_add_rx gets from outside the file: the address kzalloc
  returns (None is NULL), the result of mlx5_ktls_create_key (err and the key id),
  the receive queue of the socket, whether kvzalloc in mlx5e_ktls_create_tir
  succeeds, and the result of mlx5_core_create_tir (err and the TIR number).\<close>

record add_env =
  kzalloc_ctx :: "addr option"
  create_key_res :: "int \<times> u32"
  sk_rxq :: nat
  kvzalloc_ok :: bool
  core_create_tir_res :: "int \<times> u32"

text \<open>mlx5e_ktls_create_tir: err, and what *tirn holds after the call (t before
  it); the number is stored on success only.\<close>

definition mlx5e_ktls_create_tir :: "add_env \<Rightarrow> u32 \<Rightarrow> int \<times> u32" where
  "mlx5e_ktls_create_tir env t =
     (if \<not> kvzalloc_ok env then (- ENOMEM, t)
      else if fst (core_create_tir_res env) = 0 then (0, snd (core_create_tir_res env))
      else (fst (core_create_tir_res env), t))"

definition zero_ctx :: mlx5e_ktls_offload_context_rx where
  "zero_ctx = \<lparr>crypto_info = \<lparr>iv = [], key = [], salt = [], rec_seq = 0\<rparr>,
               rule = \<lparr>rule_work_pending = False, rule_handle = None\<rparr>,
               sk = 0, stats = 0, add_ctx = 0, tirn = 0, key_id = 0, rxq = 0,
               flag_deleting = False,
               resync = \<lparr>work_pending = False, refcnt = 0, sw_rcd_sn_be = 0, seq = 0\<rparr>\<rparr>"

text \<open>The three unwinding labels of mlx5e_ktls_add_rx; each falls through to the next.\<close>

definition err_create_key :: "addr \<Rightarrow> world \<Rightarrow> world" where
  "err_create_key p w = emit (Kfree_ctx p) (w\<lparr>ctx_mem := (ctx_mem w)(p := None)\<rparr>)"

definition err_create_tir :: "addr \<Rightarrow> world \<Rightarrow> world" where
  "err_create_tir p w =
     err_create_key p
       (case ctx_mem w p of None \<Rightarrow> w | Some c \<Rightarrow> emit (Destroy_key (key_id c)) w)"

definition err_post_wqes :: "addr \<Rightarrow> world \<Rightarrow> world" where
  "err_post_wqes p w =
     err_create_tir p
       (case ctx_mem w p of None \<Rightarrow> w | Some c \<Rightarrow> emit (Destroy_tir (tirn c)) w)"

text \<open>mlx5e_ktls_add_rx: the returned int and the state. The resync type and
  the resync_async pointer it sets in the TLS core's context are not part of the state.\<close>

definition mlx5e_ktls_add_rx ::
  "ktls_hdr \<Rightarrow> add_env \<Rightarrow> sock \<Rightarrow> tls12_crypto_info_aes_gcm_128 \<Rightarrow> u32 \<Rightarrow> world
     \<Rightarrow> fault + (int \<times> world)" where
  "mlx5e_ktls_add_rx K env s ci start_offload_tcp_sn w =
     (case kzalloc_ctx env of
        None \<Rightarrow> Inr (- ENOMEM, w)
      | Some p \<Rightarrow>
          let w0 = emit (Kzalloc_ctx p) (w\<lparr>ctx_mem := (ctx_mem w)(p \<mapsto> zero_ctx)\<rparr>)
          in if fst (create_key_res env) \<noteq> 0
             then Inr (fst (create_key_res env), err_create_key p w0)
             else
               let q = sk_rxq env;
                   w1 = emit (Create_key (snd (create_key_res env)))
                          (ctx_upd p (\<lambda>c. c\<lparr>key_id := snd (create_key_res env), crypto_info := ci,
                                              rxq := q, sk := s, stats := q\<rparr>) w0);
                   w2 = mlx5e_set_ktls_rx_priv_ctx s (Some p) w1;
                   (err, t) = mlx5e_ktls_create_tir env 0
               in if err \<noteq> 0 then Inr (err, err_create_tir p w2)
                  else
                    let w3 = emit (Create_tir t)
                               (ctx_upd p (\<lambda>c. c\<lparr>tirn := t, add_ctx := 0,
                                   rule := (rule c)\<lparr>rule_work_pending := False\<rparr>,
                                   resync := resync_init (resync c)\<rparr>) w2)
                    in case post_rx_param_wqes K q p start_offload_tcp_sn w3 of
                         Inl f \<Rightarrow> Inl f
                       | Inr (err, w4) \<Rightarrow>
                           if err \<noteq> 0 then Inr (err, err_post_wqes p w4)
                           else Inr (0, stats_upd q (\<lambda>s. s\<lparr>tls_ctx := tls_ctx s + 1\<rparr>) w4))"

section \<open>Destroying a context\<close>

text \<open>What the other execution contexts do while destroy is blocked or asleep:
  a completion delivered for a GET_PSV or a SET_PSV entry, the flow-install work
  finishing, a resync work that was already running finishing.\<close>

datatype conc =
  Get_psv_completion mlx5e_icosq_wqe_info
| Ctx_completion mlx5e_icosq_wqe_info
| Rule_work "nat option" addr
| Resync_work "addr option" "u64 option" addr

definition run_conc :: "ktls_hdr \<Rightarrow> conc \<Rightarrow> world \<Rightarrow> fault + world" where
  "run_conc K a w =
     (case a of
        Get_psv_completion wi \<Rightarrow> mlx5e_ktls_handle_get_psv_completion K wi w
      | Ctx_completion wi \<Rightarrow> mlx5e_ktls_handle_ctx_completion wi w
      | Rule_work fs p \<Rightarrow> accel_rule_handle_work fs p w
      | Resync_work kz dma p \<Rightarrow> resync_handle_work K kz dma p w)"

fun run_concs :: "ktls_hdr \<Rightarrow> conc list \<Rightarrow> world \<Rightarrow> fault + world" where
  "run_concs K [] w = Inr w"
| "run_concs K (a # as) w =
     (case run_conc K a w of Inl f \<Rightarrow> Inl f | Inr w' \<Rightarrow> run_concs K as w')"

text \<open>Modelled from the spec: cancel_work_sync of the workqueue core, which is
  not in src/. A work item that has not started is taken off the queue and the
  result is true; otherwise the result is false.\<close>

definition cancel_rule_work :: "addr \<Rightarrow> world \<Rightarrow> bool \<times> world" where
  "cancel_rule_work p w =
     (case ctx_mem w p of
        None \<Rightarrow> (False, w)
      | Some c \<Rightarrow>
          (rule_work_pending (rule c),
           emit (Cancel_rule_work p (rule_work_pending (rule c)))
             (ctx_upd p (\<lambda>c. c\<lparr>rule := (rule c)\<lparr>rule_work_pending := False\<rparr>\<rparr>) w)))"

definition cancel_resync_work :: "addr \<Rightarrow> world \<Rightarrow> bool \<times> world" where
  "cancel_resync_work p w =
     (case ctx_mem w p of
        None \<Rightarrow> (False, w)
      | Some c \<Rightarrow>
          (work_pending (resync c),
           emit (Cancel_resync_work p (work_pending (resync c)))
             (ctx_upd p (\<lambda>c. c\<lparr>resync := (resync c)\<lparr>work_pending := False\<rparr>\<rparr>) w)))"

text \<open>Modelled from the spec: wait_for_completion on add_ctx (the completion
  core is not in src/). A signalled completion is consumed; one that is not
  signalled blocks the caller, which is None.\<close>

definition wait_for_completion :: "addr \<Rightarrow> world \<Rightarrow> world option" where
  "wait_for_completion p w =
     (case ctx_mem w p of
        None \<Rightarrow> None
      | Some c \<Rightarrow> if 0 < add_ctx c then Some (ctx_upd p (\<lambda>c. c\<lparr>add_ctx := add_ctx c - 1\<rparr>) w)
                  else None)"

text \<open>wait_for_resync. j is jiffies, exp_time the deadline. The head of env says
  what happens during the next msleep(20): the ticks slept beyond the least
  (msleep sleeps msecs_to_jiffies(20) + 1 ticks or more) and what the other execution
  contexts do meanwhile. The result is jiffies and the state at the return.\<close>

function wait_for_resync_loop ::
  "ktls_hdr \<Rightarrow> addr \<Rightarrow> nat \<Rightarrow> (nat \<times> conc list) list \<Rightarrow> nat \<Rightarrow> world \<Rightarrow> fault + (nat \<times> world)" where
  "wait_for_resync_loop K p exp_time env j w =
     (case ctx_mem w p of
        None \<Rightarrow> Inl Use_after_free
      | Some c \<Rightarrow>
          if refcnt (resync c) = 1 then Inr (j, w)
          else
            (case run_concs K (case env of [] \<Rightarrow> [] | e # _ \<Rightarrow> snd e) (emit (Msleep 20) w) of
               Inl f \<Rightarrow> Inl f
             | Inr w1 \<Rightarrow>
                 if j + msecs_to_jiffies K 20 + 1 + (case env of [] \<Rightarrow> 0 | e # _ \<Rightarrow> fst e) < exp_time
                 then wait_for_resync_loop K p exp_time (tl env)
                        (j + msecs_to_jiffies K 20 + 1 + (case env of [] \<Rightarrow> 0 | e # _ \<Rightarrow> fst e)) w1
                 else Inr (j + msecs_to_jiffies K 20 + 1 + (case env of [] \<Rightarrow> 0 | e # _ \<Rightarrow> fst e),
                           emit (Netdev_warn (refcnt (resync c))) w1)))"
  by pat_completeness auto
termination
  by (relation "measure (\<lambda>(K, p, exp_time, env, j, w). exp_time - j)") auto

declare wait_for_resync_loop.simps [simp del]

definition MLX5E_KTLS_RX_RESYNC_TIMEOUT :: nat where
  "MLX5E_KTLS_RX_RESYNC_TIMEOUT = 20000"

definition wait_for_resync ::
  "ktls_hdr \<Rightarrow> addr \<Rightarrow> (nat \<times> conc list) list \<Rightarrow> nat \<Rightarrow> world \<Rightarrow> fault + (nat \<times> world)" where
  "wait_for_resync K p env j w =
     wait_for_resync_loop K p (j + msecs_to_jiffies K MLX5E_KTLS_RX_RESYNC_TIMEOUT) env j w"

text \<open>What wait_for_resync finds at its n-th reading of the count: jiffies and
  the state after n calls of msleep(20), each with what env says happens meanwhile; and
  the count read there.\<close>

fun after_sleeps ::
  "ktls_hdr \<Rightarrow> (nat \<times> conc list) list \<Rightarrow> nat \<Rightarrow> nat \<times> world \<Rightarrow> fault + (nat \<times> world)" where
  "after_sleeps K env 0 jw = Inr jw"
| "after_sleeps K env (Suc n) jw =
     (case run_concs K (case env of [] \<Rightarrow> [] | e # _ \<Rightarrow> snd e) (emit (Msleep 20) (snd jw)) of
        Inl f \<Rightarrow> Inl f
      | Inr w1 \<Rightarrow>
          after_sleeps K (tl env) n
            (fst jw + msecs_to_jiffies K 20 + 1 + (case env of [] \<Rightarrow> 0 | e # _ \<Rightarrow> fst e), w1))"

definition count_read ::
  "ktls_hdr \<Rightarrow> addr \<Rightarrow> (nat \<times> conc list) list \<Rightarrow> nat \<Rightarrow> nat \<Rightarrow> world \<Rightarrow> int option" where
  "count_read K p env n j w =
     (case after_sleeps K env n (j, w) of
        Inl f \<Rightarrow> None
      | Inr jw \<Rightarrow> map_option (\<lambda>c. refcnt (resync c)) (ctx_mem (snd jw) p))"

text \<open>The end of mlx5e_ktls_del_rx, from the statistic to kfree.\<close>

definition del_release :: "addr \<Rightarrow> world \<Rightarrow> fault + world" where
  "del_release p w =
     (case ctx_mem w p of
        None \<Rightarrow> Inl Use_after_free
      | Some c \<Rightarrow>
          let w1 = stats_upd (stats c) (\<lambda>s. s\<lparr>tls_del := tls_del s + 1\<rparr>) w;
              w2 = (case rule_handle (rule c) of None \<Rightarrow> w1 | Some r \<Rightarrow> emit (Fs_del_sk r) w1);
              w3 = emit (Destroy_key (key_id c)) (emit (Destroy_tir (tirn c)) w2)
          in Inr (emit (Kfree_ctx p) (w3\<lparr>ctx_mem := (ctx_mem w3)(p := None)\<rparr>)))"

text \<open>The surroundings of one call of mlx5e_ktls_del_rx: what the other
  execution contexts do while it is blocked on the flow-install task, while it is
  blocked in cancel_work_sync on the resync work, and during each sleep of
  wait_for_resync; and jiffies when wait_for_resync is entered.\<close>

record del_env =
  rule_sync :: "conc list"
  resync_sync :: "conc list"
  sleeps :: "(nat \<times> conc list) list"
  jiffies :: nat

text \<open>mlx5e_ktls_del_rx, in the order of its body. A wait_for_completion that is
  never signalled is Hang. napi_synchronize changes nothing in the state.\<close>

datatype del_fault = Fault fault | Hang

text \<open>set_bit(MLX5E_PRIV_RX_FLAG_DELETING) and mlx5e_set_ktls_rx_priv_ctx(tls_ctx, NULL).\<close>

definition del_mark :: "sock \<Rightarrow> addr \<Rightarrow> world \<Rightarrow> world" where
  "del_mark tlsc p w =
     mlx5e_set_ktls_rx_priv_ctx tlsc None (ctx_upd p (\<lambda>c. c\<lparr>flag_deleting := True\<rparr>) w)"

text \<open>if (!cancel_work_sync(&priv_rx->rule.work)) wait_for_completion(&priv_rx->add_ctx).\<close>

definition del_sync_rule :: "ktls_hdr \<Rightarrow> conc list \<Rightarrow> addr \<Rightarrow> world \<Rightarrow> del_fault + world" where
  "del_sync_rule K others p w =
     (let (cancelled, w1) = cancel_rule_work p w
      in if cancelled then Inr w1
         else case wait_for_completion p w1 of
                Some w2 \<Rightarrow> Inr w2
              | None \<Rightarrow>
                 (case run_concs K others w1 of
                    Inl f \<Rightarrow> Inl (Fault f)
                  | Inr w2 \<Rightarrow>
                     (case wait_for_completion p w2 of
                        Some w3 \<Rightarrow> Inr w3
                      | None \<Rightarrow> Inl Hang)))"

text \<open>if (cancel_work_sync(&resync->work)) refcount_dec(&resync->refcnt).\<close>

definition del_sync_resync :: "ktls_hdr \<Rightarrow> conc list \<Rightarrow> addr \<Rightarrow> world \<Rightarrow> del_fault + world" where
  "del_sync_resync K others p w =
     (let (cancelled, w1) = cancel_resync_work p w
      in case run_concs K others w1 of
           Inl f \<Rightarrow> Inl (Fault f)
         | Inr w2 \<Rightarrow> Inr (if cancelled then refcount_dec p w2 else w2))"

definition mlx5e_ktls_del_rx :: "ktls_hdr \<Rightarrow> del_env \<Rightarrow> sock \<Rightarrow> world \<Rightarrow> del_fault + world" where
  "mlx5e_ktls_del_rx K env tlsc w =
     (case mlx5e_get_ktls_rx_priv_ctx tlsc w of
        None \<Rightarrow> Inl (Fault Null_deref)
      | Some p \<Rightarrow>
         (case ctx_mem w p of
            None \<Rightarrow> Inl (Fault Use_after_free)
          | Some c0 \<Rightarrow>
             (case del_sync_rule K (rule_sync env) p (del_mark tlsc p w) of
                Inl f \<Rightarrow> Inl f
              | Inr w1 \<Rightarrow>
                 (case del_sync_resync K (resync_sync env) p w1 of
                    Inl f \<Rightarrow> Inl f
                  | Inr w2 \<Rightarrow>
                     (case wait_for_resync K p (sleeps env) (jiffies env) w2 of
                        Inl f \<Rightarrow> Inl (Fault f)
                      | Inr (j, w3) \<Rightarrow>
                         (case del_release p w3 of
                            Inl f \<Rightarrow> Inl (Fault f)
                          | Inr w4 \<Rightarrow> Inr w4))))))"

text \<open>The calls by which destroy sleeps or complains.\<close>

definition loud :: "event \<Rightarrow> bool" where
  "loud e = (case e of Msleep _ \<Rightarrow> True | Netdev_warn _ \<Rightarrow> True | _ \<Rightarrow> False)"

text \<open>The state in which destroy enters wait_for_resync, when the flow-install
  attempt has finished or is still queued and nothing else runs meanwhile.\<close>

definition del_before_wait :: "sock \<Rightarrow> addr \<Rightarrow> mlx5e_ktls_offload_context_rx \<Rightarrow> world \<Rightarrow> world" where
  "del_before_wait tlsc p c w =
     w\<lparr>ctx_mem := (ctx_mem w)(p \<mapsto> c\<lparr>flag_deleting := True,
          rule := (rule c)\<lparr>rule_work_pending := False\<rparr>,
          add_ctx := (if rule_work_pending (rule c) then add_ctx c else add_ctx c - 1),
          resync := (resync c)\<lparr>work_pending := False,
             refcnt := refcnt (resync c) - (if work_pending (resync c) then 1 else 0)\<rparr>\<rparr>),
       driver_ctx := (driver_ctx w)(tlsc := None),
       trace := trace w @ [Cancel_rule_work p (rule_work_pending (rule c)),
                            Cancel_resync_work p (work_pending (resync c))]
                  @ (if work_pending (resync c) then [Refcount_dec p] else [])\<rparr>"

section \<open>Interleavings\<close>














section \<open>Example states\<close>

text \<open>A queue interface over a ring of eight entries: room as the driver counts
  it from the two counters, the producer index masked to the ring.\<close>

definition K_ex :: ktls_hdr where
  "K_ex = \<lparr>wqc_has_room_for = (\<lambda>sq n. n \<le> and (cc sq - pc sq) 7 \<or> cc sq = pc sq),
           stop_room_for_wqe = (\<lambda>n. 2 * n - 1),
           icosq_get_next_pi = (\<lambda>sq n. and (pc sq) 7),
           SET_STATIC_PARAMS_WQEBBS = 2,
           SET_PROGRESS_PARAMS_WQEBBS = 1,
           TRACKER_STATE_TRACKING = 1,
           AUTH_STATE_NO_OFFLOAD = 0,
           cpu_to_be32 = (\<lambda>x. x),
           msecs_to_jiffies = (\<lambda>ms. ms div 4)\<rparr>"

definition ctx_ex :: mlx5e_ktls_offload_context_rx where
  "ctx_ex = \<lparr>crypto_info = \<lparr>iv = [], key = [], salt = [], rec_seq = 0\<rparr>,
             rule = \<lparr>rule_work_pending = False, rule_handle = None\<rparr>,
             sk = 5, stats = 0, add_ctx = 0, tirn = 7, key_id = 9, rxq = 0,
             flag_deleting = False,
             resync = \<lparr>work_pending = False, refcnt = 1, sw_rcd_sn_be = 0, seq = 1000\<rparr>\<rparr>"

definition sq_ex :: mlx5e_icosq where
  "sq_ex = \<lparr>pc = 0, cc = 0, sqn = 3, wq = Map.empty, wqe_info = Map.empty\<rparr>"

definition stats_ex :: mlx5e_rq_stats where
  "stats_ex = \<lparr>tls_resync_req_skip = 0, tls_resync_req_end = 0, tls_resync_res_ok = 0,
               tls_resync_res_skip = 0, tls_ctx = 0, tls_del = 0\<rparr>"

text \<open>One context, stored at address 1 and registered for socket 5, on channel 0.\<close>

definition w_ex :: world where
  "w_ex = \<lparr>ctx_mem = [1 \<mapsto> ctx_ex], buf_mem = Map.empty,
           driver_ctx = (\<lambda>_. None)(5 := Some 1),
           icosq = (\<lambda>_. sq_ex), channel_stats = (\<lambda>_. stats_ex), trace = []\<rparr>"

text \<open>The same with the ring of channel 0 full: six entries ahead of the consumer.\<close>

definition w_full :: world where
  "w_full = w_ex\<lparr>icosq := (\<lambda>_. sq_ex\<lparr>pc := 6\<rparr>)\<rparr>"

text \<open>The same as \<open>w_ex\<close> with one resync operation holding a reference.\<close>

definition w_busy :: world where
  "w_busy = w_ex\<lparr>ctx_mem := [1 \<mapsto> ctx_ex\<lparr>resync := (resync ctx_ex)\<lparr>refcnt := 2\<rparr>\<rparr>]\<rparr>"

definition w_busy_full :: world where
  "w_busy_full = w_busy\<lparr>icosq := (\<lambda>_. sq_ex\<lparr>pc := 8\<rparr>)\<rparr>"

text \<open>A GET_PSV entry in flight for the context at 1, its response buffer at 2
  filled in by the device: tracking, no offload, sequence number 1050.\<close>

definition buf_ex :: mlx5e_ktls_rx_resync_buf where
  "buf_ex = \<lparr>progress = \<lparr>record_tracker_state = 1, auth_state = 0, hw_resync_tcp_sn = 1050\<rparr>,
             dma_addr = Some 4096, buf_priv_rx = Some 1\<rparr>"

definition wi_ex :: mlx5e_icosq_wqe_info where
  "wi_ex = \<lparr>wqe_type = MLX5E_ICOSQ_WQE_GET_PSV_TLS, num_wqebbs = 1, wi_ptr = 2\<rparr>"

definition w_inflight :: world where
  "w_inflight = w_busy\<lparr>buf_mem := [2 \<mapsto> buf_ex],
      icosq := (\<lambda>_. sq_ex\<lparr>pc := 1, wq := [0 \<mapsto> Get_tls_progress_params 0 3 7 4096],
                            wqe_info := [0 \<mapsto> wi_ex]\<rparr>)\<rparr>"


text \<open>No context yet; and a create call in which the device rejects the TIR.\<close>

definition w_none :: world where
  "w_none = \<lparr>ctx_mem = Map.empty, buf_mem = Map.empty, driver_ctx = (\<lambda>_. None),
             icosq = (\<lambda>_. sq_ex), channel_stats = (\<lambda>_. stats_ex), trace = []\<rparr>"

definition env_tir_fails :: add_env where
  "env_tir_fails = \<lparr>kzalloc_ctx = Some 1, create_key_res = (0, 9), sk_rxq = 0,
      kvzalloc_ok = True, core_create_tir_res = (- 5, 0)\<rparr>"

text \<open>The context of \<open>w_ex\<close> after the flow-install task ran (rule handle 4,
  add_ctx signalled); the same with the GET_PSV entry of \<open>w_inflight\<close> outstanding;
  a destroy call with nothing else going on; and one during whose second sleep the
  completion of that entry is delivered.\<close>

definition w_idle :: world where
  "w_idle = w_ex\<lparr>ctx_mem := [1 \<mapsto> ctx_ex\<lparr>add_ctx := 1,
                     rule := \<lparr>rule_work_pending = False, rule_handle = Some 4\<rparr>\<rparr>]\<rparr>"

definition w_del :: world where
  "w_del = w_inflight\<lparr>ctx_mem := [1 \<mapsto> ctx_ex\<lparr>add_ctx := 1,
                     rule := \<lparr>rule_work_pending = False, rule_handle = Some 4\<rparr>,
                     resync := (resync ctx_ex)\<lparr>refcnt := 2\<rparr>\<rparr>]\<rparr>"

definition env_quiet :: del_env where
  "env_quiet = \<lparr>rule_sync = [], resync_sync = [], sleeps = [], jiffies = 100\<rparr>"

definition env_late :: del_env where
  "env_late = \<lparr>rule_sync = [], resync_sync = [],
                sleeps = [(0, []), (0, [Get_psv_completion wi_ex])], jiffies = 100\<rparr>"

text \<open>A destroy call during whose first sleep the completion is delivered, with
  nothing happening in the sleeps that would follow.\<close>

definition env_first :: del_env where
  "env_first = \<lparr>rule_sync = [], resync_sync = [],
                 sleeps = [(0, [Get_psv_completion wi_ex]), (0, []), (0, [])], jiffies = 100\<rparr>"




section \<open>Properties\<close>

subsection \<open>Basic facts\<close>

lemma trace_upd [simp]:
  "trace (ctx_upd p f w) = trace w"
  "trace (stats_upd i g w) = trace w"
  "trace (emit e w) = trace w @ [e]"
  by (simp_all add: ctx_upd_def stats_upd_def emit_def)

lemma run_conc_trace:
  "run_conc K a w = Inr w' \<Longrightarrow> \<exists>t. trace w' = trace w @ t \<and> (\<forall>e \<in> set t. \<not> loud e)"
  by (cases a)
     (auto simp: run_conc_def mlx5e_ktls_handle_get_psv_completion_def
        mlx5e_ktls_handle_ctx_completion_def accel_rule_handle_work_def resync_handle_work_def
        resync_post_get_progress_params_def queue_rule_work_def complete_add_ctx_def
        refcount_dec_def kfree_buf_def emit_def ctx_upd_def stats_upd_def Let_def loud_def
        split: option.splits if_splits sum.splits prod.splits)

lemma run_concs_trace:
  "run_concs K as w = Inr w' \<Longrightarrow> \<exists>t. trace w' = trace w @ t \<and> (\<forall>e \<in> set t. \<not> loud e)"
proof (induction as arbitrary: w)
  case Nil
  then show ?case by simp
next
  case (Cons a as)
  from Cons.prems obtain w1 where a: "run_conc K a w = Inr w1" and r: "run_concs K as w1 = Inr w'"
    by (auto split: sum.splits)
  from run_conc_trace [OF a] obtain t1 where t1: "trace w1 = trace w @ t1" "\<forall>e \<in> set t1. \<not> loud e"
    by blast
  from Cons.IH [OF r] obtain t2 where t2: "trace w' = trace w1 @ t2" "\<forall>e \<in> set t2. \<not> loud e"
    by blast
  show ?case
    by (rule exI [of _ "t1 @ t2"]) (use t1 t2 in auto)
qed

text \<open>The other contexts never touch the pending bit of a resync work item.\<close>

lemma run_conc_pending:
  "run_conc K a w = Inr w' \<Longrightarrow>
   map_option (\<lambda>c. work_pending (resync c)) (ctx_mem w' q) =
   map_option (\<lambda>c. work_pending (resync c)) (ctx_mem w q)"
  by (cases a)
     (auto simp: run_conc_def mlx5e_ktls_handle_get_psv_completion_def
        mlx5e_ktls_handle_ctx_completion_def accel_rule_handle_work_def resync_handle_work_def
        resync_post_get_progress_params_def queue_rule_work_def complete_add_ctx_def
        refcount_dec_def kfree_buf_def emit_def ctx_upd_def stats_upd_def Let_def
        split: option.splits if_splits sum.splits prod.splits)

lemma run_concs_pending:
  "run_concs K as w = Inr w' \<Longrightarrow>
   map_option (\<lambda>c. work_pending (resync c)) (ctx_mem w' q) =
   map_option (\<lambda>c. work_pending (resync c)) (ctx_mem w q)"
proof (induction as arbitrary: w)
  case Nil
  then show ?case by simp
next
  case (Cons a as)
  from Cons.prems obtain w1 where a: "run_conc K a w = Inr w1" and r: "run_concs K as w1 = Inr w'"
    by (auto split: sum.splits)
  show ?case using run_conc_pending [OF a, of q] Cons.IH [OF r] by simp
qed

lemma wait_loop_ready:
  "ctx_mem w p = Some c \<Longrightarrow> refcnt (resync c) = 1 \<Longrightarrow>
   wait_for_resync_loop K p e env j w = Inr (j, w)"
  by (subst wait_for_resync_loop.simps) simp

text \<open>One round of the loop, when the count read is not 1.\<close>

lemma wait_loop_step:
  assumes "wait_for_resync_loop K p e env j w = Inr (j', w')"
    and "ctx_mem w p = Some c" and "refcnt (resync c) \<noteq> 1"
  obtains w1 t where
    "run_concs K (case env of [] \<Rightarrow> [] | x # _ \<Rightarrow> snd x) (emit (Msleep 20) w) = Inr w1"
    "trace w1 = trace w @ [Msleep 20] @ t" "\<forall>x \<in> set t. \<not> loud x"
    "(j + msecs_to_jiffies K 20 + 1 + (case env of [] \<Rightarrow> 0 | x # _ \<Rightarrow> fst x) < e \<and>
       wait_for_resync_loop K p e (tl env)
         (j + msecs_to_jiffies K 20 + 1 + (case env of [] \<Rightarrow> 0 | x # _ \<Rightarrow> fst x)) w1 = Inr (j', w'))
     \<or> (e \<le> j' \<and> j' = j + msecs_to_jiffies K 20 + 1 + (case env of [] \<Rightarrow> 0 | x # _ \<Rightarrow> fst x) \<and>
         w' = emit (Netdev_warn (refcnt (resync c))) w1)"
proof -
  let ?as = "case env of [] \<Rightarrow> [] | x # _ \<Rightarrow> snd x"
  from assms obtain w1 where r: "run_concs K ?as (emit (Msleep 20) w) = Inr w1"
    by (subst (asm) wait_for_resync_loop.simps) (auto split: sum.splits)
  from run_concs_trace [OF r] obtain t where
    t: "trace w1 = trace w @ [Msleep 20] @ t" "\<forall>x \<in> set t. \<not> loud x"
    by (auto simp: emit_def)
  from assms r have "(j + msecs_to_jiffies K 20 + 1 + (case env of [] \<Rightarrow> 0 | x # _ \<Rightarrow> fst x) < e \<and>
       wait_for_resync_loop K p e (tl env)
         (j + msecs_to_jiffies K 20 + 1 + (case env of [] \<Rightarrow> 0 | x # _ \<Rightarrow> fst x)) w1 = Inr (j', w'))
     \<or> (e \<le> j' \<and> j' = j + msecs_to_jiffies K 20 + 1 + (case env of [] \<Rightarrow> 0 | x # _ \<Rightarrow> fst x) \<and>
         w' = emit (Netdev_warn (refcnt (resync c))) w1)"
    by (subst (asm) wait_for_resync_loop.simps) (auto split: if_splits)
  with r t that show thesis by blast
qed

lemma wait_loop_sleeps:
  "wait_for_resync_loop K p e env j w = Inr (j', w') \<Longrightarrow>
   length [x \<leftarrow> trace w'. x = Msleep 20] \<le> length [x \<leftarrow> trace w. x = Msleep 20] + max 1 (e - j)"
proof (induction K p e env j w rule: wait_for_resync_loop.induct)
  case (1 K p e env j w)
  show ?case
  proof (cases "ctx_mem w p")
    case None
    with "1.prems" show ?thesis by (subst (asm) wait_for_resync_loop.simps) simp
  next
    case (Some c)
    show ?thesis
    proof (cases "refcnt (resync c) = 1")
      case True
      with Some "1.prems" show ?thesis by (simp add: wait_loop_ready)
    next
      case False
      from "1.prems" Some False show ?thesis
      proof (rule wait_loop_step)
        fix w1 t
        assume r: "run_concs K (case env of [] \<Rightarrow> [] | x # _ \<Rightarrow> snd x) (emit (Msleep 20) w) = Inr w1"
          and t: "trace w1 = trace w @ [Msleep 20] @ t" "\<forall>x \<in> set t. \<not> loud x"
          and d: "(j + msecs_to_jiffies K 20 + 1 + (case env of [] \<Rightarrow> 0 | x # _ \<Rightarrow> fst x) < e \<and>
              wait_for_resync_loop K p e (tl env)
                (j + msecs_to_jiffies K 20 + 1 + (case env of [] \<Rightarrow> 0 | x # _ \<Rightarrow> fst x)) w1 = Inr (j', w'))
            \<or> (e \<le> j' \<and> j' = j + msecs_to_jiffies K 20 + 1 + (case env of [] \<Rightarrow> 0 | x # _ \<Rightarrow> fst x) \<and>
                w' = emit (Netdev_warn (refcnt (resync c))) w1)"
        have ft: "[x \<leftarrow> t. x = Msleep 20] = []"
          using t(2) by (auto simp: filter_empty_conv loud_def)
        have s1: "length [x \<leftarrow> trace w1. x = Msleep 20] = length [x \<leftarrow> trace w. x = Msleep 20] + 1"
          using t(1) ft by simp
        from d show ?thesis
        proof
          assume a: "j + msecs_to_jiffies K 20 + 1 + (case env of [] \<Rightarrow> 0 | x # _ \<Rightarrow> fst x) < e \<and>
              wait_for_resync_loop K p e (tl env)
                (j + msecs_to_jiffies K 20 + 1 + (case env of [] \<Rightarrow> 0 | x # _ \<Rightarrow> fst x)) w1 = Inr (j', w')"
          define j1 where "j1 = j + msecs_to_jiffies K 20 + 1 + (case env of [] \<Rightarrow> 0 | x # _ \<Rightarrow> fst x)"
          have lt: "j < j1" "j1 < e" using a by (simp_all add: j1_def)
          from "1.IH" [OF Some False r] a
          have "length [x \<leftarrow> trace w'. x = Msleep 20]
                  \<le> length [x \<leftarrow> trace w1. x = Msleep 20] + max 1 (e - j1)"
            by (simp add: j1_def)
          with s1 lt show ?thesis by linarith
        next
          assume "e \<le> j' \<and> j' = j + msecs_to_jiffies K 20 + 1 + (case env of [] \<Rightarrow> 0 | x # _ \<Rightarrow> fst x) \<and>
                w' = emit (Netdev_warn (refcnt (resync c))) w1"
          with s1 show ?thesis by (simp add: emit_def)
        qed
      qed
    qed
  qed
qed

lemma wait_loop_outcome:
  "wait_for_resync_loop K p e env j w = Inr (j', w') \<Longrightarrow>
   (\<exists>c'. ctx_mem w' p = Some c' \<and> refcnt (resync c') = 1 \<and>
       [x \<leftarrow> trace w'. \<exists>r. x = Netdev_warn r] = [x \<leftarrow> trace w. \<exists>r. x = Netdev_warn r] \<and>
       (j' = j \<or> j' < e))
   \<or> (e \<le> j' \<and> (\<exists>t r. trace w' = trace w @ t @ [Netdev_warn r] \<and> r \<noteq> 1))"
proof (induction K p e env j w rule: wait_for_resync_loop.induct)
  case (1 K p e env j w)
  show ?case
  proof (cases "ctx_mem w p")
    case None
    with "1.prems" show ?thesis by (subst (asm) wait_for_resync_loop.simps) simp
  next
    case (Some c)
    show ?thesis
    proof (cases "refcnt (resync c) = 1")
      case True
      with Some "1.prems" show ?thesis by (auto simp: wait_loop_ready)
    next
      case False
      from "1.prems" Some False show ?thesis
      proof (rule wait_loop_step)
        fix w1 t
        assume r: "run_concs K (case env of [] \<Rightarrow> [] | x # _ \<Rightarrow> snd x) (emit (Msleep 20) w) = Inr w1"
          and t: "trace w1 = trace w @ [Msleep 20] @ t" "\<forall>x \<in> set t. \<not> loud x"
          and d: "(j + msecs_to_jiffies K 20 + 1 + (case env of [] \<Rightarrow> 0 | x # _ \<Rightarrow> fst x) < e \<and>
              wait_for_resync_loop K p e (tl env)
                (j + msecs_to_jiffies K 20 + 1 + (case env of [] \<Rightarrow> 0 | x # _ \<Rightarrow> fst x)) w1 = Inr (j', w'))
            \<or> (e \<le> j' \<and> j' = j + msecs_to_jiffies K 20 + 1 + (case env of [] \<Rightarrow> 0 | x # _ \<Rightarrow> fst x) \<and>
                w' = emit (Netdev_warn (refcnt (resync c))) w1)"
        have ft: "[x \<leftarrow> t. \<exists>r. x = Netdev_warn r] = []"
          using t(2) by (auto simp: filter_empty_conv loud_def)
        have s1: "[x \<leftarrow> trace w1. \<exists>r. x = Netdev_warn r] = [x \<leftarrow> trace w. \<exists>r. x = Netdev_warn r]"
          using t(1) ft by simp
        from d show ?thesis
        proof
          assume a: "j + msecs_to_jiffies K 20 + 1 + (case env of [] \<Rightarrow> 0 | x # _ \<Rightarrow> fst x) < e \<and>
              wait_for_resync_loop K p e (tl env)
                (j + msecs_to_jiffies K 20 + 1 + (case env of [] \<Rightarrow> 0 | x # _ \<Rightarrow> fst x)) w1 = Inr (j', w')"
          from "1.IH" [OF Some False r] a
          have "(\<exists>c'. ctx_mem w' p = Some c' \<and> refcnt (resync c') = 1 \<and>
                  [x \<leftarrow> trace w'. \<exists>r. x = Netdev_warn r] = [x \<leftarrow> trace w1. \<exists>r. x = Netdev_warn r] \<and>
                  j' < e)
               \<or> (e \<le> j' \<and> (\<exists>t r. trace w' = trace w1 @ t @ [Netdev_warn r] \<and> r \<noteq> 1))"
            by auto
          then show ?thesis
          proof
            assume "\<exists>c'. ctx_mem w' p = Some c' \<and> refcnt (resync c') = 1 \<and>
                  [x \<leftarrow> trace w'. \<exists>r. x = Netdev_warn r] = [x \<leftarrow> trace w1. \<exists>r. x = Netdev_warn r] \<and>
                  j' < e"
            with s1 show ?thesis by auto
          next
            assume "e \<le> j' \<and> (\<exists>t r. trace w' = trace w1 @ t @ [Netdev_warn r] \<and> r \<noteq> 1)"
            then obtain t' r where "e \<le> j'" "trace w' = trace w1 @ t' @ [Netdev_warn r]" "r \<noteq> 1"
              by blast
            with t(1) have "trace w' = trace w @ ([Msleep 20] @ t @ t') @ [Netdev_warn r]" by simp
            with \<open>e \<le> j'\<close> \<open>r \<noteq> 1\<close> show ?thesis by blast
          qed
        next
          assume b: "e \<le> j' \<and> j' = j + msecs_to_jiffies K 20 + 1 + (case env of [] \<Rightarrow> 0 | x # _ \<Rightarrow> fst x) \<and>
                w' = emit (Netdev_warn (refcnt (resync c))) w1"
          with t(1) have "trace w' = trace w @ ([Msleep 20] @ t) @ [Netdev_warn (refcnt (resync c))]"
            by (simp add: emit_def)
          with b False show ?thesis by blast
        qed
      qed
    qed
  qed
qed


lemma wait_loop_trace_ext:
  "wait_for_resync_loop K p e env j w = Inr (j', w') \<Longrightarrow> \<exists>t. trace w' = trace w @ t"
proof (induction K p e env j w rule: wait_for_resync_loop.induct)
  case (1 K p e env j w)
  show ?case
  proof (cases "ctx_mem w p")
    case None
    with "1.prems" show ?thesis by (subst (asm) wait_for_resync_loop.simps) simp
  next
    case (Some c)
    show ?thesis
    proof (cases "refcnt (resync c) = 1")
      case True
      with Some "1.prems" show ?thesis by (simp add: wait_loop_ready)
    next
      case False
      from "1.prems" Some False show ?thesis
      proof (rule wait_loop_step)
        fix w1 t
        assume r: "run_concs K (case env of [] \<Rightarrow> [] | x # _ \<Rightarrow> snd x) (emit (Msleep 20) w) = Inr w1"
          and t: "trace w1 = trace w @ [Msleep 20] @ t"
          and d: "(j + msecs_to_jiffies K 20 + 1 + (case env of [] \<Rightarrow> 0 | x # _ \<Rightarrow> fst x) < e \<and>
              wait_for_resync_loop K p e (tl env)
                (j + msecs_to_jiffies K 20 + 1 + (case env of [] \<Rightarrow> 0 | x # _ \<Rightarrow> fst x)) w1 = Inr (j', w'))
            \<or> (e \<le> j' \<and> j' = j + msecs_to_jiffies K 20 + 1 + (case env of [] \<Rightarrow> 0 | x # _ \<Rightarrow> fst x) \<and>
                w' = emit (Netdev_warn (refcnt (resync c))) w1)"
        from d show ?thesis
        proof
          assume a: "j + msecs_to_jiffies K 20 + 1 + (case env of [] \<Rightarrow> 0 | x # _ \<Rightarrow> fst x) < e \<and>
              wait_for_resync_loop K p e (tl env)
                (j + msecs_to_jiffies K 20 + 1 + (case env of [] \<Rightarrow> 0 | x # _ \<Rightarrow> fst x)) w1 = Inr (j', w')"
          from "1.IH" [OF Some False r] a obtain t' where "trace w' = trace w1 @ t'" by auto
          with t show ?thesis by simp
        next
          assume "e \<le> j' \<and> j' = j + msecs_to_jiffies K 20 + 1 + (case env of [] \<Rightarrow> 0 | x # _ \<Rightarrow> fst x) \<and>
                w' = emit (Netdev_warn (refcnt (resync c))) w1"
          with t show ?thesis by (simp add: emit_def)
        qed
      qed
    qed
  qed
qed

text \<open>With nobody else acting and a count other than 1, the loop sleeps until the
  deadline has passed, warns with the count it read, and returns.\<close>

lemma wait_loop_timeout:
  "ctx_mem w p = Some c \<Longrightarrow> refcnt (resync c) \<noteq> 1 \<Longrightarrow> \<forall>x \<in> set env. snd x = [] \<Longrightarrow>
   \<exists>j' n. 0 < n \<and> e \<le> j' \<and>
     wait_for_resync_loop K p e env j w =
       Inr (j', w\<lparr>trace := trace w @ replicate n (Msleep 20) @ [Netdev_warn (refcnt (resync c))]\<rparr>)"
proof (induction K p e env j w rule: wait_for_resync_loop.induct)
  case (1 K p e env j w)
  let ?j1 = "j + msecs_to_jiffies K 20 + 1 + (case env of [] \<Rightarrow> 0 | x # _ \<Rightarrow> fst x)"
  let ?w1 = "emit (Msleep 20) w"
  have q: "(case env of [] \<Rightarrow> [] | x # _ \<Rightarrow> snd x) = []"
    using "1.prems"(3) by (cases env) auto
  have r: "run_concs K (case env of [] \<Rightarrow> [] | x # _ \<Rightarrow> snd x) ?w1 = Inr ?w1"
    by (simp add: q)
  show ?case
  proof (cases "?j1 < e")
    case True
    have c1: "ctx_mem ?w1 p = Some c" using "1.prems"(1) by (simp add: emit_def)
    have q': "\<forall>x \<in> set (tl env). snd x = []"
      using "1.prems"(3) by (cases env) auto
    from "1.IH" [OF "1.prems"(1) "1.prems"(2) r True c1 "1.prems"(2) q']
    obtain j' n where n: "0 < n" "e \<le> j'"
      "wait_for_resync_loop K p e (tl env) ?j1 ?w1 =
         Inr (j', ?w1\<lparr>trace := trace ?w1 @ replicate n (Msleep 20) @ [Netdev_warn (refcnt (resync c))]\<rparr>)"
      by blast
    have eq: "?w1\<lparr>trace := trace ?w1 @ replicate n (Msleep 20) @ [Netdev_warn (refcnt (resync c))]\<rparr>
            = w\<lparr>trace := trace w @ replicate (Suc n) (Msleep 20) @ [Netdev_warn (refcnt (resync c))]\<rparr>"
      by (simp add: emit_def)
    have "wait_for_resync_loop K p e env j w =
            Inr (j', w\<lparr>trace := trace w @ replicate (Suc n) (Msleep 20) @ [Netdev_warn (refcnt (resync c))]\<rparr>)"
      using "1.prems"(1,2) True n(3) eq
      by (subst wait_for_resync_loop.simps) (simp add: q)
    with n(2) show ?thesis by (intro exI [of _ j'] exI [of _ "Suc n"]) simp
  next
    case False
    have "wait_for_resync_loop K p e env j w =
            Inr (?j1, w\<lparr>trace := trace w @ replicate 1 (Msleep 20) @ [Netdev_warn (refcnt (resync c))]\<rparr>)"
      using "1.prems"(1,2) False
      by (subst wait_for_resync_loop.simps) (simp add: q emit_def)
    with False show ?thesis by (intro exI [of _ ?j1] exI [of _ 1]) simp
  qed
qed

text \<open>The loop returns at the first reading of the count that gives 1, and
  nowhere else before the deadline.\<close>

lemma count_read_0:
  "count_read K p env 0 j w = map_option (\<lambda>c. refcnt (resync c)) (ctx_mem w p)"
  by (simp add: count_read_def)

lemma after_sleeps_Suc:
  "run_concs K (case env of [] \<Rightarrow> [] | x # _ \<Rightarrow> snd x) (emit (Msleep 20) w) = Inr w1 \<Longrightarrow>
   after_sleeps K env (Suc n) (j, w) =
     after_sleeps K (tl env) n
       (j + msecs_to_jiffies K 20 + 1 + (case env of [] \<Rightarrow> 0 | x # _ \<Rightarrow> fst x), w1)"
  by simp

lemma count_read_Suc:
  "run_concs K (case env of [] \<Rightarrow> [] | x # _ \<Rightarrow> snd x) (emit (Msleep 20) w) = Inr w1 \<Longrightarrow>
   count_read K p env (Suc n) j w =
     count_read K p (tl env) n
       (j + msecs_to_jiffies K 20 + 1 + (case env of [] \<Rightarrow> 0 | x # _ \<Rightarrow> fst x)) w1"
  by (simp add: count_read_def)

lemma after_sleeps_mono:
  "after_sleeps K env n (j, w) = Inr (jn, wn) \<Longrightarrow> j \<le> jn"
proof (induction n arbitrary: env j w)
  case 0
  then show ?case by simp
next
  case (Suc n)
  from Suc.prems obtain w1 where
    "after_sleeps K (tl env) n
       (j + msecs_to_jiffies K 20 + 1 + (case env of [] \<Rightarrow> 0 | x # _ \<Rightarrow> fst x), w1) = Inr (jn, wn)"
    by (auto split: sum.splits)
  from Suc.IH [OF this] show ?case by simp
qed

lemma wait_loop_first:
  "wait_for_resync_loop K p e env j w = Inr (j', w') \<Longrightarrow>
   \<exists>n. (\<forall>i<n. count_read K p env i j w \<noteq> Some 1) \<and>
     ((after_sleeps K env n (j, w) = Inr (j', w') \<and> count_read K p env n j w = Some 1)
      \<or> (0 < n \<and> e \<le> j' \<and>
          (\<exists>wn r. after_sleeps K env n (j, w) = Inr (j', wn) \<and>
             count_read K p env (n - 1) j w = Some r \<and> w' = emit (Netdev_warn r) wn)))"
proof (induction K p e env j w rule: wait_for_resync_loop.induct)
  case (1 K p e env j w)
  show ?case
  proof (cases "ctx_mem w p")
    case None
    with "1.prems" show ?thesis by (subst (asm) wait_for_resync_loop.simps) simp
  next
    case (Some c)
    show ?thesis
    proof (cases "refcnt (resync c) = 1")
      case True
      with Some "1.prems" have "j' = j" "w' = w" by (simp_all add: wait_loop_ready)
      with Some True show ?thesis
        by (intro exI [of _ 0]) (simp add: count_read_0)
    next
      case False
      have c0: "count_read K p env 0 j w = Some (refcnt (resync c))"
        using Some by (simp add: count_read_0)
      from "1.prems" Some False show ?thesis
      proof (rule wait_loop_step)
        fix w1 t
        let ?j1 = "j + msecs_to_jiffies K 20 + 1 + (case env of [] \<Rightarrow> 0 | x # _ \<Rightarrow> fst x)"
        assume r: "run_concs K (case env of [] \<Rightarrow> [] | x # _ \<Rightarrow> snd x) (emit (Msleep 20) w) = Inr w1"
          and d: "(?j1 < e \<and> wait_for_resync_loop K p e (tl env) ?j1 w1 = Inr (j', w'))
            \<or> (e \<le> j' \<and> j' = ?j1 \<and> w' = emit (Netdev_warn (refcnt (resync c))) w1)"
        note aS = after_sleeps_Suc [OF r, of _ j] and cS = count_read_Suc [OF r, of p _ j]
        from d show ?thesis
        proof
          assume a: "?j1 < e \<and> wait_for_resync_loop K p e (tl env) ?j1 w1 = Inr (j', w')"
          from "1.IH" [OF Some False r] a obtain n where
            n1: "\<forall>i<n. count_read K p (tl env) i ?j1 w1 \<noteq> Some 1" and
            n2: "(after_sleeps K (tl env) n (?j1, w1) = Inr (j', w') \<and>
                   count_read K p (tl env) n ?j1 w1 = Some 1)
              \<or> (0 < n \<and> e \<le> j' \<and>
                  (\<exists>wn r. after_sleeps K (tl env) n (?j1, w1) = Inr (j', wn) \<and>
                     count_read K p (tl env) (n - 1) ?j1 w1 = Some r \<and> w' = emit (Netdev_warn r) wn))"
            by blast
          have f: "\<forall>i<Suc n. count_read K p env i j w \<noteq> Some 1"
          proof (intro allI impI)
            fix i assume "i < Suc n"
            show "count_read K p env i j w \<noteq> Some 1"
            proof (cases i)
              case 0
              with c0 False show ?thesis by simp
            next
              case (Suc i')
              with \<open>i < Suc n\<close> n1 show ?thesis by (simp add: cS)
            qed
          qed
          from n2 have "(after_sleeps K env (Suc n) (j, w) = Inr (j', w') \<and>
                   count_read K p env (Suc n) j w = Some 1)
              \<or> (0 < Suc n \<and> e \<le> j' \<and>
                  (\<exists>wn r. after_sleeps K env (Suc n) (j, w) = Inr (j', wn) \<and>
                     count_read K p env (Suc n - 1) j w = Some r \<and> w' = emit (Netdev_warn r) wn))"
          proof
            assume "after_sleeps K (tl env) n (?j1, w1) = Inr (j', w') \<and>
                   count_read K p (tl env) n ?j1 w1 = Some 1"
            then show ?thesis by (simp del: after_sleeps.simps add: aS cS)
          next
            assume b: "0 < n \<and> e \<le> j' \<and>
                  (\<exists>wn r. after_sleeps K (tl env) n (?j1, w1) = Inr (j', wn) \<and>
                     count_read K p (tl env) (n - 1) ?j1 w1 = Some r \<and> w' = emit (Netdev_warn r) wn)"
            then obtain m where m: "n = Suc m" by (cases n) auto
            from b m have "count_read K p env (Suc n - 1) j w = count_read K p (tl env) (n - 1) ?j1 w1"
              by (simp add: cS)
            with b show ?thesis by (simp del: after_sleeps.simps add: aS)
          qed
          with f show ?thesis by blast
        next
          assume b: "e \<le> j' \<and> j' = ?j1 \<and> w' = emit (Netdev_warn (refcnt (resync c))) w1"
          have "after_sleeps K env (Suc 0) (j, w) = Inr (?j1, w1)" using r by simp
          with b c0 False show ?thesis
            by (intro exI [of _ "Suc 0"]) simp
        qed
      qed
    qed
  qed
qed

lemma wait_loop_prompt:
  "after_sleeps K env n (j, w) = Inr (jn, wn) \<Longrightarrow> ctx_mem wn p = Some cn \<Longrightarrow>
   refcnt (resync cn) = 1 \<Longrightarrow>
   (\<forall>i<n. \<exists>r. count_read K p env i j w = Some r \<and> r \<noteq> 1) \<Longrightarrow> n = 0 \<or> jn < e \<Longrightarrow>
   wait_for_resync_loop K p e env j w = Inr (jn, wn)"
proof (induction n arbitrary: env j w)
  case 0
  then show ?case by (simp add: wait_loop_ready)
next
  case (Suc n)
  let ?j1 = "j + msecs_to_jiffies K 20 + 1 + (case env of [] \<Rightarrow> 0 | x # _ \<Rightarrow> fst x)"
  from Suc.prems(4) obtain r where "count_read K p env 0 j w = Some r" "r \<noteq> 1" by blast
  then obtain c where c: "ctx_mem w p = Some c" "refcnt (resync c) \<noteq> 1"
    by (auto simp: count_read_0)
  from Suc.prems(1) obtain w1 where
    r: "run_concs K (case env of [] \<Rightarrow> [] | x # _ \<Rightarrow> snd x) (emit (Msleep 20) w) = Inr w1"
    and a: "after_sleeps K (tl env) n (?j1, w1) = Inr (jn, wn)"
    by (auto split: sum.splits)
  from after_sleeps_mono [OF a] Suc.prems(5) have lt: "?j1 < e" by simp
  have f: "\<forall>i<n. \<exists>r. count_read K p (tl env) i ?j1 w1 = Some r \<and> r \<noteq> 1"
  proof (intro allI impI)
    fix i assume "i < n"
    then have "Suc i < Suc n" by simp
    with Suc.prems(4) have "\<exists>r. count_read K p env (Suc i) j w = Some r \<and> r \<noteq> 1" by blast
    then show "\<exists>r. count_read K p (tl env) i ?j1 w1 = Some r \<and> r \<noteq> 1"
      by (simp add: count_read_Suc [OF r])
  qed
  from Suc.prems(5) have "n = 0 \<or> jn < e" by simp
  from Suc.IH [OF a Suc.prems(2,3) f this]
  have "wait_for_resync_loop K p e (tl env) ?j1 w1 = Inr (jn, wn)" .
  with c r lt show ?case
    by (subst wait_for_resync_loop.simps) simp
qed

lemma del_release_Inr:
  "del_release p w = Inr w' \<Longrightarrow>
   ctx_mem w' p = None \<and> (\<exists>t tn k. trace w' = trace w @ t @ [Destroy_tir tn, Destroy_key k, Kfree_ctx p])"
  by (auto simp: del_release_def Let_def emit_def stats_upd_def split: option.splits)

lemma wait_for_completion_Some:
  "wait_for_completion p w = Some w' \<Longrightarrow>
   trace w' = trace w \<and>
   map_option (\<lambda>c. work_pending (resync c)) (ctx_mem w' q) =
   map_option (\<lambda>c. work_pending (resync c)) (ctx_mem w q)"
  by (auto simp: wait_for_completion_def ctx_upd_def split: option.splits if_splits)

lemma del_sync_rule_Inr:
  "del_sync_rule K others p w = Inr w' \<Longrightarrow>
   (\<exists>t. trace w' = trace w @ t) \<and>
   map_option (\<lambda>c. work_pending (resync c)) (ctx_mem w' q) =
   map_option (\<lambda>c. work_pending (resync c)) (ctx_mem w q)"
proof -
  assume a: "del_sync_rule K others p w = Inr w'"
  obtain b w1 where c: "cancel_rule_work p w = (b, w1)" by (cases "cancel_rule_work p w")
  then have w1: "(\<exists>t. trace w1 = trace w @ t) \<and>
      map_option (\<lambda>c. work_pending (resync c)) (ctx_mem w1 q) =
      map_option (\<lambda>c. work_pending (resync c)) (ctx_mem w q)"
    by (auto simp: cancel_rule_work_def emit_def ctx_upd_def split: option.splits)
  from a c consider "w' = w1" | "wait_for_completion p w1 = Some w'"
    | w2 where "run_concs K others w1 = Inr w2" "wait_for_completion p w2 = Some w'"
    by (auto simp: del_sync_rule_def split: if_splits option.splits sum.splits)
  then show ?thesis
  proof cases
    case 1
    with w1 show ?thesis by simp
  next
    case 2
    with w1 wait_for_completion_Some [OF 2, of q] show ?thesis by simp
  next
    case 3
    from run_concs_trace [OF 3(1)] run_concs_pending [OF 3(1), of q]
      wait_for_completion_Some [OF 3(2), of q] w1
    show ?thesis by auto
  qed
qed

lemma del_sync_resync_Inr:
  assumes "del_sync_resync K others p w = Inr w'"
  shows "\<exists>t. trace w' = trace w @ t"
    and "ctx_mem w p = Some c \<Longrightarrow> work_pending (resync c) \<Longrightarrow>
      \<exists>t. trace w' = trace w @ [Cancel_resync_work p True] @ t @ [Refcount_dec p]"
proof -
  obtain b w1 where c: "cancel_resync_work p w = (b, w1)" by (cases "cancel_resync_work p w")
  from assms c obtain w2 where r: "run_concs K others w1 = Inr w2"
    and w': "w' = (if b then refcount_dec p w2 else w2)"
    by (auto simp: del_sync_resync_def split: sum.splits)
  from run_concs_trace [OF r] obtain t where t: "trace w2 = trace w1 @ t" by blast
  from c have "\<exists>t. trace w1 = trace w @ t"
    by (auto simp: cancel_resync_work_def emit_def split: option.splits)
  with t w' show "\<exists>t. trace w' = trace w @ t"
    by (auto simp: refcount_dec_def emit_def ctx_upd_def)
  assume "ctx_mem w p = Some c" "work_pending (resync c)"
  with c have "b" "trace w1 = trace w @ [Cancel_resync_work p True]"
    by (auto simp: cancel_resync_work_def emit_def)
  with t w' show "\<exists>t. trace w' = trace w @ [Cancel_resync_work p True] @ t @ [Refcount_dec p]"
    by (auto simp: refcount_dec_def emit_def ctx_upd_def)
qed

text \<open>The stages of a destroy call that returns.\<close>

lemma del_rx_stages:
  assumes "mlx5e_ktls_del_rx K env tlsc w = Inr w'" and "driver_ctx w tlsc = Some p"
  obtains w1 w2 j w3 where
    "del_sync_rule K (rule_sync env) p (del_mark tlsc p w) = Inr w1"
    "del_sync_resync K (resync_sync env) p w1 = Inr w2"
    "wait_for_resync K p (sleeps env) (jiffies env) w2 = Inr (j, w3)"
    "del_release p w3 = Inr w'"
  using assms
  by (auto simp: mlx5e_ktls_del_rx_def mlx5e_get_ktls_rx_priv_ctx_def
      split: option.splits sum.splits prod.splits)

lemma del_mark_facts:
  "trace (del_mark tlsc p w) = trace w"
  "map_option (\<lambda>c. work_pending (resync c)) (ctx_mem (del_mark tlsc p w) q) =
   map_option (\<lambda>c. work_pending (resync c)) (ctx_mem w q)"
  by (auto simp: del_mark_def mlx5e_set_ktls_rx_priv_ctx_def ctx_upd_def split: option.splits)

lemma del_rx_teardown:
  assumes "mlx5e_ktls_del_rx K env tlsc w = Inr w'" and "driver_ctx w tlsc = Some p"
  shows "ctx_mem w' p = None"
    and "\<exists>t tn k. trace w' = trace w @ t @ [Destroy_tir tn, Destroy_key k, Kfree_ctx p]"
    and "ctx_mem w p = Some c \<Longrightarrow> work_pending (resync c) \<Longrightarrow>
      \<exists>t1 t2 t3. trace w' = trace w @ t1 @ [Cancel_resync_work p True] @ t2 @ [Refcount_dec p] @ t3"
proof -
  from assms obtain w1 w2 j w3 where
    s1: "del_sync_rule K (rule_sync env) p (del_mark tlsc p w) = Inr w1" and
    s2: "del_sync_resync K (resync_sync env) p w1 = Inr w2" and
    s3: "wait_for_resync K p (sleeps env) (jiffies env) w2 = Inr (j, w3)" and
    s4: "del_release p w3 = Inr w'"
    by (rule del_rx_stages)
  from del_release_Inr [OF s4] obtain t4 tn k where
    r: "ctx_mem w' p = None" "trace w' = trace w3 @ t4 @ [Destroy_tir tn, Destroy_key k, Kfree_ctx p]"
    by blast
  from s3 obtain t3 where t3: "trace w3 = trace w2 @ t3"
    unfolding wait_for_resync_def by (blast dest: wait_loop_trace_ext)
  from del_sync_resync_Inr(1) [OF s2] obtain t2 where t2: "trace w2 = trace w1 @ t2" by blast
  from del_sync_rule_Inr [OF s1, of p] del_mark_facts [of tlsc p w] obtain t1 where
    t1: "trace w1 = trace w @ t1" and
    pe: "map_option (\<lambda>c. work_pending (resync c)) (ctx_mem w1 p) =
         map_option (\<lambda>c. work_pending (resync c)) (ctx_mem w p)"
    by auto
  show "ctx_mem w' p = None" by (rule r(1))
  have "trace w' = trace w @ (t1 @ t2 @ t3 @ t4) @ [Destroy_tir tn, Destroy_key k, Kfree_ctx p]"
    using r(2) t3 t2 t1 by simp
  then show "\<exists>t tn k. trace w' = trace w @ t @ [Destroy_tir tn, Destroy_key k, Kfree_ctx p]"
    by blast
  assume "ctx_mem w p = Some c" "work_pending (resync c)"
  with pe obtain c1 where c1: "ctx_mem w1 p = Some c1" "work_pending (resync c1)" by auto
  from del_sync_resync_Inr(2) [OF s2 c1] obtain u where
    "trace w2 = trace w1 @ [Cancel_resync_work p True] @ u @ [Refcount_dec p]" by blast
  with r(2) t3 t1 have
    "trace w' = trace w @ t1 @ [Cancel_resync_work p True] @ u @ [Refcount_dec p]
       @ (t3 @ t4 @ [Destroy_tir tn, Destroy_key k, Kfree_ctx p])"
    by simp
  then show "\<exists>t1 t2 t3. trace w' = trace w @ t1 @ [Cancel_resync_work p True] @ t2 @ [Refcount_dec p] @ t3"
    by blast
qed

lemma del_rx_upto_wait:
  assumes "driver_ctx w tlsc = Some p" and "ctx_mem w p = Some c"
    and "rule_work_pending (rule c) \<or> 0 < add_ctx c" and "resync_sync env = []"
  shows "mlx5e_ktls_del_rx K env tlsc w =
     (case wait_for_resync K p (sleeps env) (jiffies env) (del_before_wait tlsc p c w) of
        Inl f \<Rightarrow> Inl (Fault f)
      | Inr (j, w3) \<Rightarrow> (case del_release p w3 of Inl f \<Rightarrow> Inl (Fault f) | Inr w4 \<Rightarrow> Inr w4))"
proof -
  have 1: "del_sync_rule K (rule_sync env) p (del_mark tlsc p w) =
      Inr (w\<lparr>ctx_mem := (ctx_mem w)(p \<mapsto> c\<lparr>flag_deleting := True,
                rule := (rule c)\<lparr>rule_work_pending := False\<rparr>,
                add_ctx := (if rule_work_pending (rule c) then add_ctx c else add_ctx c - 1)\<rparr>),
             driver_ctx := (driver_ctx w)(tlsc := None),
             trace := trace w @ [Cancel_rule_work p (rule_work_pending (rule c))]\<rparr>)"
    using assms(2,3)
    by (auto simp: del_sync_rule_def del_mark_def cancel_rule_work_def wait_for_completion_def
        mlx5e_set_ktls_rx_priv_ctx_def ctx_upd_def emit_def)
  have 2: "del_sync_resync K (resync_sync env) p
      (w\<lparr>ctx_mem := (ctx_mem w)(p \<mapsto> c\<lparr>flag_deleting := True,
                rule := (rule c)\<lparr>rule_work_pending := False\<rparr>,
                add_ctx := (if rule_work_pending (rule c) then add_ctx c else add_ctx c - 1)\<rparr>),
             driver_ctx := (driver_ctx w)(tlsc := None),
             trace := trace w @ [Cancel_rule_work p (rule_work_pending (rule c))]\<rparr>)
      = Inr (del_before_wait tlsc p c w)"
    using assms(4)
    by (auto simp: del_sync_resync_def cancel_resync_work_def refcount_dec_def ctx_upd_def
        emit_def del_before_wait_def intro!: world.equality)
  show ?thesis
    using assms(1,2)
    by (simp add: mlx5e_ktls_del_rx_def mlx5e_get_ktls_rx_priv_ctx_def 1 2)
qed

lemma del_rx_null:
  "driver_ctx w tlsc = None \<Longrightarrow> mlx5e_ktls_del_rx K env tlsc w = Inl (Fault Null_deref)"
  by (simp add: mlx5e_ktls_del_rx_def mlx5e_get_ktls_rx_priv_ctx_def)

lemma del_rx_ready:
  assumes "driver_ctx w tlsc = Some p" and "ctx_mem w p = Some c"
    and "rule_work_pending (rule c) \<or> 0 < add_ctx c" and "resync_sync env = []"
    and "refcnt (resync c) - (if work_pending (resync c) then 1 else 0) = 1"
  shows "\<exists>w'. mlx5e_ktls_del_rx K env tlsc w = Inr w' \<and>
     driver_ctx w' tlsc = None \<and> ctx_mem w' p = None \<and>
     trace w' = trace w @ [Cancel_rule_work p (rule_work_pending (rule c)),
                           Cancel_resync_work p (work_pending (resync c))]
        @ (if work_pending (resync c) then [Refcount_dec p] else [])
        @ (case rule_handle (rule c) of None \<Rightarrow> [] | Some r \<Rightarrow> [Fs_del_sk r])
        @ [Destroy_tir (tirn c), Destroy_key (key_id c), Kfree_ctx p]"
proof -
  have "wait_for_resync K p (sleeps env) (jiffies env) (del_before_wait tlsc p c w)
        = Inr (jiffies env, del_before_wait tlsc p c w)"
    unfolding wait_for_resync_def
    by (rule wait_loop_ready [where c = "the (ctx_mem (del_before_wait tlsc p c w) p)"])
       (use assms(5) in \<open>simp_all add: del_before_wait_def\<close>)
  then show ?thesis
    by (simp add: del_rx_upto_wait [OF assms(1-4)] del_release_def del_before_wait_def
        Let_def emit_def stats_upd_def split: option.splits)
qed

lemma del_rx_timeout:
  assumes "driver_ctx w tlsc = Some p" and "ctx_mem w p = Some c"
    and "rule_work_pending (rule c) \<or> 0 < add_ctx c" and "resync_sync env = []"
    and "\<forall>x \<in> set (sleeps env). snd x = []"
    and "refcnt (resync c) - (if work_pending (resync c) then 1 else 0) \<noteq> 1"
  shows "\<exists>w' n. 0 < n \<and> mlx5e_ktls_del_rx K env tlsc w = Inr w' \<and>
     driver_ctx w' tlsc = None \<and> ctx_mem w' p = None \<and>
     trace w' = trace w @ [Cancel_rule_work p (rule_work_pending (rule c)),
                           Cancel_resync_work p (work_pending (resync c))]
        @ (if work_pending (resync c) then [Refcount_dec p] else [])
        @ replicate n (Msleep 20)
        @ [Netdev_warn (refcnt (resync c) - (if work_pending (resync c) then 1 else 0))]
        @ (case rule_handle (rule c) of None \<Rightarrow> [] | Some r \<Rightarrow> [Fs_del_sk r])
        @ [Destroy_tir (tirn c), Destroy_key (key_id c), Kfree_ctx p]"
proof -
  let ?w2 = "del_before_wait tlsc p c w"
  let ?c2 = "the (ctx_mem ?w2 p)"
  have c2: "ctx_mem ?w2 p = Some ?c2"
    "refcnt (resync ?c2) = refcnt (resync c) - (if work_pending (resync c) then 1 else 0)"
    by (simp_all add: del_before_wait_def)
  have ne: "refcnt (resync ?c2) \<noteq> 1" using c2(2) assms(6) by simp
  from wait_loop_timeout [OF c2(1) ne assms(5),
      where e = "jiffies env + msecs_to_jiffies K MLX5E_KTLS_RX_RESYNC_TIMEOUT"
        and K = K and j = "jiffies env"]
  obtain j' n where n: "0 < n"
    "wait_for_resync K p (sleeps env) (jiffies env) ?w2 =
       Inr (j', ?w2\<lparr>trace := trace ?w2 @ replicate n (Msleep 20)
              @ [Netdev_warn (refcnt (resync ?c2))]\<rparr>)"
    unfolding wait_for_resync_def by blast
  have "\<exists>w'. mlx5e_ktls_del_rx K env tlsc w = Inr w' \<and>
     driver_ctx w' tlsc = None \<and> ctx_mem w' p = None \<and>
     trace w' = trace w @ [Cancel_rule_work p (rule_work_pending (rule c)),
                           Cancel_resync_work p (work_pending (resync c))]
        @ (if work_pending (resync c) then [Refcount_dec p] else [])
        @ replicate n (Msleep 20)
        @ [Netdev_warn (refcnt (resync c) - (if work_pending (resync c) then 1 else 0))]
        @ (case rule_handle (rule c) of None \<Rightarrow> [] | Some r \<Rightarrow> [Fs_del_sk r])
        @ [Destroy_tir (tirn c), Destroy_key (key_id c), Kfree_ctx p]"
    apply (simp only: del_rx_upto_wait [OF assms(1-4)] n(2) sum.case prod.case)
    apply (simp add: del_release_def del_before_wait_def Let_def emit_def stats_upd_def
        split: option.splits)
    done
  with n(1) show ?thesis by blast
qed


subsection \<open>The authoritative answer\<close>

text \<open>C10: when the driver context slot of the socket's TLS context is NULL,
  mlx5e_ktls_rx_resync returns at once and the state is the one it was called in:
  no session field is written, no descriptor is posted, no statistic changes.\<close>

theorem rx_resync_null_ctx_noop:
  "driver_ctx w s = None \<Longrightarrow> mlx5e_ktls_rx_resync K s S R w = Inr w"
  by (simp add: mlx5e_ktls_rx_resync_def mlx5e_get_ktls_rx_priv_ctx_def)

theorem rx_resync_null_ctx_noop_witness:
  "driver_ctx w_ex 6 = None \<and> mlx5e_ktls_rx_resync K_ex 6 1050 0 w_ex = Inr w_ex"
  using rx_resync_null_ctx_noop [of w_ex 6 K_ex 1050 0] by (simp add: w_ex_def)

text \<open>C6, as the code has it: for a socket with a registered context,
  mlx5e_ktls_rx_resync with sequence number S and record number R stores both in the
  resync session (and the record number in the crypto info) and changes nothing else
  of the context, so the reference count stays. If the queue has room for the static
  parameters entry, exactly that one entry is written, with starting sequence S, the
  doorbell is rung once and tls_resync_res_ok goes up by one; if it has no room, the
  queue is left as it was, nothing is rung, and tls_resync_res_skip goes up by one.\<close>

theorem rx_resync_reissues_static_params:
  assumes "driver_ctx w s = Some p" and "ctx_mem w p = Some c"
  shows "\<exists>w' c'. mlx5e_ktls_rx_resync K s S R w = Inr w' \<and>
     ctx_mem w' = (ctx_mem w)(p \<mapsto> c') \<and>
     c' = c\<lparr>resync := (resync c)\<lparr>sw_rcd_sn_be := R, seq := S\<rparr>,
            crypto_info := (crypto_info c)\<lparr>rec_seq := R\<rparr>\<rparr> \<and>
     (let sq = icosq w (rxq c); n = SET_STATIC_PARAMS_WQEBBS K; pi = icosq_get_next_pi K sq n
      in if wqc_has_room_for K sq (stop_room_for_wqe K n)
         then icosq w' = (icosq w)(rxq c := sq\<lparr>pc := pc sq + n,
                  wq := (wq sq)(pi \<mapsto> Set_tls_static_params (pc sq) (sqn sq) (crypto_info c')
                                         (tirn c) (key_id c) S),
                  wqe_info := (wqe_info sq)(pi \<mapsto> \<lparr>wqe_type = MLX5E_ICOSQ_WQE_UMR_TLS,
                                                     num_wqebbs = n, wi_ptr = p\<rparr>)\<rparr>) \<and>
              trace w' = trace w @ [Notify_hw (rxq c) (pc sq + n) pi] \<and>
              channel_stats w' = (channel_stats w)(stats c := (channel_stats w (stats c))
                 \<lparr>tls_resync_res_ok := tls_resync_res_ok (channel_stats w (stats c)) + 1\<rparr>)
         else icosq w' = icosq w \<and> trace w' = trace w \<and>
              channel_stats w' = (channel_stats w)(stats c := (channel_stats w (stats c))
                 \<lparr>tls_resync_res_skip := tls_resync_res_skip (channel_stats w (stats c)) + 1\<rparr>))"
  using assms
  by (auto simp: mlx5e_ktls_rx_resync_def mlx5e_get_ktls_rx_priv_ctx_def
      resync_handle_seq_match_def post_static_params_def emit_def ctx_upd_def stats_upd_def Let_def)

theorem rx_resync_reissues_static_params_witness:
  "\<exists>w' c'. mlx5e_ktls_rx_resync K_ex 5 1050 77 w_ex = Inr w' \<and>
     ctx_mem w' 1 = Some c' \<and> seq (resync c') = 1050 \<and> sw_rcd_sn_be (resync c') = 77 \<and>
     refcnt (resync c') = 1 \<and>
     wq (icosq w' 0) = [0 \<mapsto> Set_tls_static_params 0 3 (crypto_info c') 7 9 1050] \<and>
     trace w' = [Notify_hw 0 2 0] \<and>
     tls_resync_res_ok (channel_stats w' 0) = 1"
  using rx_resync_reissues_static_params [of w_ex 5 1 ctx_ex K_ex 1050 77]
  by (auto simp: w_ex_def ctx_ex_def sq_ex_def stats_ex_def K_ex_def Let_def)

text \<open>C6 as stated fails when the queue has no room: the call for the
  registered socket 5 on the full ring posts no descriptor and rings no doorbell;
  it counts a skip.\<close>

theorem rx_resync_queue_full_counterexample:
  "\<exists>w'. mlx5e_ktls_rx_resync K_ex 5 1050 0 w_full = Inr w' \<and>
     icosq w' = icosq w_full \<and> trace w' = [] \<and>
     tls_resync_res_skip (channel_stats w' 0) = 1"
  by (simp add: mlx5e_ktls_rx_resync_def mlx5e_get_ktls_rx_priv_ctx_def
      resync_handle_seq_match_def post_static_params_def emit_def ctx_upd_def stats_upd_def Let_def
      w_full_def w_ex_def ctx_ex_def sq_ex_def stats_ex_def K_ex_def ENOSPC_def)

subsection \<open>The fetch-progress completion\<close>




subsection \<open>The decode-failure stimulus\<close>

text \<open>C7: for a socket whose context is located, resync_queue_get_psv refuses
  when the deletion flag is set: it returns false and the state is untouched.
  Otherwise it returns true, and it first increments the reference count and then
  hands the work item to the worker; when the hand-off is refused (the work item is
  already queued) it decrements the count at once, so the context is as before.\<close>

theorem resync_queue_get_psv_refcount:
  assumes "driver_ctx w s = Some p" and "ctx_mem w p = Some c"
  shows "\<exists>w'. resync_queue_get_psv s w = Inr (\<not> flag_deleting c, w') \<and>
     (flag_deleting c \<longrightarrow> w' = w) \<and>
     (\<not> flag_deleting c \<and> \<not> work_pending (resync c) \<longrightarrow>
        trace w' = trace w @ [Refcount_inc p, Queue_resync_work p True] \<and>
        ctx_mem w' p = Some (c\<lparr>resync := (resync c)\<lparr>work_pending := True,
                                   refcnt := refcnt (resync c) + 1\<rparr>\<rparr>)) \<and>
     (\<not> flag_deleting c \<and> work_pending (resync c) \<longrightarrow>
        trace w' = trace w @ [Refcount_inc p, Queue_resync_work p False, Refcount_dec p] \<and>
        ctx_mem w' p = Some c)"
  using assms
  by (auto simp: resync_queue_get_psv_def mlx5e_get_ktls_rx_priv_ctx_def queue_resync_work_def
      refcount_inc_def refcount_dec_def emit_def ctx_upd_def Let_def)

theorem resync_queue_get_psv_refcount_witness:
  "\<exists>w'. resync_queue_get_psv 5 w_ex = Inr (True, w') \<and>
     trace w' = [Refcount_inc 1, Queue_resync_work 1 True] \<and>
     (\<exists>c'. ctx_mem w' 1 = Some c' \<and> refcnt (resync c') = 2 \<and> work_pending (resync c'))"
  using resync_queue_get_psv_refcount [of w_ex 5 1 ctx_ex]
  by (auto simp: w_ex_def ctx_ex_def)

subsection \<open>The flow-install task\<close>

text \<open>C9: run on a live context, accel_rule_handle_work returns and has called
  complete on add_ctx exactly once, as its last call, on each path. With the deletion
  flag set it calls nothing else and leaves the rule handle alone; otherwise it calls
  mlx5e_accel_fs_add_sk once before, and stores the handle when one came back.\<close>

theorem accel_rule_handle_work_completes_once:
  assumes "ctx_mem w p = Some c"
  shows "\<exists>w' c'. accel_rule_handle_work fs p w = Inr w' \<and>
     trace w' = trace w @ (if flag_deleting c then [] else [Fs_add_sk (sk c) (tirn c)])
                  @ [Complete_add_ctx p] \<and>
     ctx_mem w' p = Some c' \<and> add_ctx c' = add_ctx c + 1 \<and>
     rule_handle (rule c') =
       (if flag_deleting c then rule_handle (rule c)
        else case fs of None \<Rightarrow> rule_handle (rule c) | Some r \<Rightarrow> Some r)"
  using assms
  by (auto simp: accel_rule_handle_work_def complete_add_ctx_def emit_def ctx_upd_def Let_def
      split: option.splits)

theorem accel_rule_handle_work_completes_once_witness:
  "\<exists>w' c'. accel_rule_handle_work (Some 4) 1 w_ex = Inr w' \<and>
     trace w' = [Fs_add_sk 5 7, Complete_add_ctx 1] \<and>
     ctx_mem w' 1 = Some c' \<and> add_ctx c' = 1 \<and> rule_handle (rule c') = Some 4"
  using accel_rule_handle_work_completes_once [of w_ex 1 ctx_ex "Some 4"]
  by (auto simp: w_ex_def ctx_ex_def)

subsection \<open>Release on the failure paths\<close>

text \<open>C4 fails on the submission side. The worker runs for the context at 1,
  kzalloc returns the buffer at 2, and dma_map_single fails: the reference is dropped
  but the buffer stays allocated and kfree is never called on it. The same
  happens when the mapping succeeds and the ring has no room.\<close>

theorem resync_handle_work_failure_leaks_buf:
  "(\<exists>w' b. resync_handle_work K_ex (Some 2) None 1 w_busy = Inr w' \<and>
      buf_mem w' 2 = Some b \<and> trace w' = [Kzalloc_buf 2, Refcount_dec 1]) \<and>
   (\<exists>w' b. resync_handle_work K_ex (Some 2) (Some 4096) 1 w_busy_full = Inr w' \<and>
      buf_mem w' 2 = Some b \<and> trace w' = [Kzalloc_buf 2, Refcount_dec 1] \<and>
      wqe_info (icosq w' 0) = Map.empty)"
  by (simp add: resync_handle_work_def resync_post_get_progress_params_def refcount_dec_def
      emit_def ctx_upd_def stats_upd_def Let_def w_busy_full_def w_busy_def w_ex_def ctx_ex_def
      sq_ex_def K_ex_def)

text \<open>C2 fails after the context has been registered. Creating a context for
  socket 5 with the device rejecting the TIR returns the error, destroys the key and
  frees the context in that order, and leaves the driver context slot pointing at the
  freed memory.\<close>

theorem add_rx_tir_failure_leaves_ctx_registered:
  "\<exists>w'. mlx5e_ktls_add_rx K_ex env_tir_fails 5 (crypto_info ctx_ex) 1000 w_none = Inr (- 5, w') \<and>
     driver_ctx w' 5 = Some 1 \<and> ctx_mem w' 1 = None \<and>
     trace w' = [Kzalloc_ctx 1, Create_key 9, Destroy_key 9, Kfree_ctx 1]"
  by (simp add: mlx5e_ktls_add_rx_def mlx5e_ktls_create_tir_def env_tir_fails_def w_none_def
      err_create_tir_def err_create_key_def mlx5e_set_ktls_rx_priv_ctx_def emit_def ctx_upd_def
      zero_ctx_def Let_def)

subsection \<open>Destroy\<close>

text \<open>C3, as the code has it: mlx5e_ktls_del_rx is for a connection whose
  context is registered. Called there with the reference count at 1, no resync work
  queued, the flow-install attempt finished or still queued, and no resync work
  running, it returns without sleeping and without a warning: it cancels the two
  work items, releases the steering rule if one was installed, the TIR, the key and
  the memory, in that order, and leaves the driver context slot NULL.\<close>

theorem destroy_registered_without_waiting:
  assumes "driver_ctx w tlsc = Some p" and "ctx_mem w p = Some c"
    and "refcnt (resync c) = 1" and "\<not> work_pending (resync c)"
    and "rule_work_pending (rule c) \<or> 0 < add_ctx c" and "resync_sync env = []"
  shows "\<exists>w'. mlx5e_ktls_del_rx K env tlsc w = Inr w' \<and>
     driver_ctx w' tlsc = None \<and> ctx_mem w' p = None \<and>
     trace w' = trace w @ [Cancel_rule_work p (rule_work_pending (rule c)),
                           Cancel_resync_work p False]
        @ (case rule_handle (rule c) of None \<Rightarrow> [] | Some r \<Rightarrow> [Fs_del_sk r])
        @ [Destroy_tir (tirn c), Destroy_key (key_id c), Kfree_ctx p]"
  using del_rx_ready [OF assms(1,2,5,6), of K] assms(3,4) by simp

theorem destroy_registered_without_waiting_witness:
  "\<exists>w'. mlx5e_ktls_del_rx K_ex env_quiet 5 w_idle = Inr w' \<and>
     driver_ctx w' 5 = None \<and> ctx_mem w' 1 = None \<and>
     trace w' = [Cancel_rule_work 1 False, Cancel_resync_work 1 False, Fs_del_sk 4,
                 Destroy_tir 7, Destroy_key 9, Kfree_ctx 1]"
  using destroy_registered_without_waiting [of w_idle 5 1 "the (ctx_mem w_idle 1)" env_quiet K_ex]
  by (auto simp: w_idle_def w_ex_def ctx_ex_def env_quiet_def)

text \<open>C3 as stated fails: destroy is not idempotent. After the first call
  for socket 5 has returned, the second call on the same connection finds the slot
  NULL and dereferences it.\<close>

theorem second_destroy_counterexample:
  "\<exists>w'. mlx5e_ktls_del_rx K_ex env_quiet 5 w_idle = Inr w' \<and>
      mlx5e_ktls_del_rx K_ex env_quiet 5 w' = Inl (Fault Null_deref)"
proof -
  have "\<exists>w'. mlx5e_ktls_del_rx K_ex env_quiet 5 w_idle = Inr w' \<and> driver_ctx w' 5 = None"
    using del_rx_ready [of w_idle 5 1 "the (ctx_mem w_idle 1)" env_quiet K_ex]
    by (auto simp: w_idle_def w_ex_def ctx_ex_def env_quiet_def)
  then show ?thesis by (auto simp: del_rx_null)
qed

text \<open>C8. The wait: wait_for_resync returns at once, without sleeping, when
  the count it reads is 1. When it returns, it has called msleep(20) at most once per
  tick of the 20000 ms timeout (and at most once when the timeout is no tick at all),
  and either the count was read as 1, no warning was added, and jiffies is before the
  deadline (or the entry time), or the deadline has passed and the last call is the
  warning, with a count other than 1. The destroy call: whenever
  mlx5e_ktls_del_rx returns, the context has been torn down (TIR, key, memory), and a
  resync work item that had not started was cancelled and the count decremented
  for it. With nobody else acting, the flow-install attempt finished or queued, and
  the count not draining to 1, destroy sleeps at least once, warns, and then tears down
  all the same. As soon as: when wait_for_resync returns after n sleeps, none of the
  readings before the n-th gave 1, and either the n-th reading gave 1 and the state
  returned is the one read, or the deadline had passed after the n-th sleep and the
  warning carries the count of the reading before it. And the other way round: when
  the n-th reading is the first to give 1 and jiffies is before the deadline then,
  wait_for_resync returns there, after exactly n sleeps and without a warning.\<close>

theorem destroy_waits_for_resync:
  "(ctx_mem w p = Some c \<and> refcnt (resync c) = 1 \<longrightarrow>
      wait_for_resync K p senv j w = Inr (j, w)) \<and>
   (wait_for_resync K p senv j w = Inr (j', w') \<longrightarrow>
      length [x \<leftarrow> trace w'. x = Msleep 20]
        \<le> length [x \<leftarrow> trace w. x = Msleep 20]
            + max 1 (msecs_to_jiffies K MLX5E_KTLS_RX_RESYNC_TIMEOUT) \<and>
      ((\<exists>c'. ctx_mem w' p = Some c' \<and> refcnt (resync c') = 1 \<and>
           [x \<leftarrow> trace w'. \<exists>r. x = Netdev_warn r] = [x \<leftarrow> trace w. \<exists>r. x = Netdev_warn r] \<and>
           (j' = j \<or> j' < j + msecs_to_jiffies K MLX5E_KTLS_RX_RESYNC_TIMEOUT))
       \<or> (j + msecs_to_jiffies K MLX5E_KTLS_RX_RESYNC_TIMEOUT \<le> j' \<and>
           (\<exists>t r. trace w' = trace w @ t @ [Netdev_warn r] \<and> r \<noteq> 1)))) \<and>
   (driver_ctx v tlsc = Some p \<and> mlx5e_ktls_del_rx K env tlsc v = Inr v' \<longrightarrow>
      ctx_mem v' p = None \<and>
      (\<exists>t tn k. trace v' = trace v @ t @ [Destroy_tir tn, Destroy_key k, Kfree_ctx p]) \<and>
      (\<forall>d. ctx_mem v p = Some d \<and> work_pending (resync d) \<longrightarrow>
         (\<exists>t1 t2 t3. trace v' = trace v @ t1 @ [Cancel_resync_work p True] @ t2
                         @ [Refcount_dec p] @ t3))) \<and>
   (driver_ctx v tlsc = Some p \<and> ctx_mem v p = Some d \<and>
    (rule_work_pending (rule d) \<or> 0 < add_ctx d) \<and> resync_sync env = [] \<and>
    (\<forall>x \<in> set (sleeps env). snd x = []) \<and>
    refcnt (resync d) - (if work_pending (resync d) then 1 else 0) \<noteq> 1 \<longrightarrow>
      (\<exists>u n. 0 < n \<and> mlx5e_ktls_del_rx K env tlsc v = Inr u \<and>
         driver_ctx u tlsc = None \<and> ctx_mem u p = None \<and>
         trace u = trace v @ [Cancel_rule_work p (rule_work_pending (rule d)),
                              Cancel_resync_work p (work_pending (resync d))]
           @ (if work_pending (resync d) then [Refcount_dec p] else [])
           @ replicate n (Msleep 20)
           @ [Netdev_warn (refcnt (resync d) - (if work_pending (resync d) then 1 else 0))]
           @ (case rule_handle (rule d) of None \<Rightarrow> [] | Some r \<Rightarrow> [Fs_del_sk r])
           @ [Destroy_tir (tirn d), Destroy_key (key_id d), Kfree_ctx p])) \<and>
   (wait_for_resync K p senv j w = Inr (j', w') \<longrightarrow>
      (\<exists>n. (\<forall>i<n. count_read K p senv i j w \<noteq> Some 1) \<and>
         ((after_sleeps K senv n (j, w) = Inr (j', w') \<and> count_read K p senv n j w = Some 1)
          \<or> (0 < n \<and> j + msecs_to_jiffies K MLX5E_KTLS_RX_RESYNC_TIMEOUT \<le> j' \<and>
              (\<exists>wn r. after_sleeps K senv n (j, w) = Inr (j', wn) \<and>
                 count_read K p senv (n - 1) j w = Some r \<and> w' = emit (Netdev_warn r) wn))))) \<and>
   (after_sleeps K senv n (j, w) = Inr (jn, wn) \<and> count_read K p senv n j w = Some 1 \<and>
    (\<forall>i<n. \<exists>r. count_read K p senv i j w = Some r \<and> r \<noteq> 1) \<and>
    (n = 0 \<or> jn < j + msecs_to_jiffies K MLX5E_KTLS_RX_RESYNC_TIMEOUT) \<longrightarrow>
      wait_for_resync K p senv j w = Inr (jn, wn))"
proof (intro conjI impI)
  assume "ctx_mem w p = Some c \<and> refcnt (resync c) = 1"
  then show "wait_for_resync K p senv j w = Inr (j, w)"
    by (simp add: wait_for_resync_def wait_loop_ready)
next
  assume a: "wait_for_resync K p senv j w = Inr (j', w')"
  from wait_loop_sleeps [OF a [unfolded wait_for_resync_def]]
  show "length [x \<leftarrow> trace w'. x = Msleep 20]
        \<le> length [x \<leftarrow> trace w. x = Msleep 20]
            + max 1 (msecs_to_jiffies K MLX5E_KTLS_RX_RESYNC_TIMEOUT)"
    by simp
  from wait_loop_outcome [OF a [unfolded wait_for_resync_def]]
  show "(\<exists>c'. ctx_mem w' p = Some c' \<and> refcnt (resync c') = 1 \<and>
           [x \<leftarrow> trace w'. \<exists>r. x = Netdev_warn r] = [x \<leftarrow> trace w. \<exists>r. x = Netdev_warn r] \<and>
           (j' = j \<or> j' < j + msecs_to_jiffies K MLX5E_KTLS_RX_RESYNC_TIMEOUT))
       \<or> (j + msecs_to_jiffies K MLX5E_KTLS_RX_RESYNC_TIMEOUT \<le> j' \<and>
           (\<exists>t r. trace w' = trace w @ t @ [Netdev_warn r] \<and> r \<noteq> 1))"
    by simp
next
  assume a: "driver_ctx v tlsc = Some p \<and> mlx5e_ktls_del_rx K env tlsc v = Inr v'"
  then have d: "mlx5e_ktls_del_rx K env tlsc v = Inr v'" and s: "driver_ctx v tlsc = Some p"
    by simp_all
  show "ctx_mem v' p = None" by (rule del_rx_teardown(1) [OF d s])
  show "\<exists>t tn k. trace v' = trace v @ t @ [Destroy_tir tn, Destroy_key k, Kfree_ctx p]"
    by (rule del_rx_teardown(2) [OF d s])
  show "\<forall>d. ctx_mem v p = Some d \<and> work_pending (resync d) \<longrightarrow>
         (\<exists>t1 t2 t3. trace v' = trace v @ t1 @ [Cancel_resync_work p True] @ t2
                         @ [Refcount_dec p] @ t3)"
  proof (intro allI impI)
    fix d assume "ctx_mem v p = Some d \<and> work_pending (resync d)"
    then have "ctx_mem v p = Some d" and "work_pending (resync d)" by simp_all
    then show "\<exists>t1 t2 t3. trace v' = trace v @ t1 @ [Cancel_resync_work p True] @ t2
                         @ [Refcount_dec p] @ t3"
      by (rule del_rx_teardown(3) [OF d s])
  qed
next
  assume a: "driver_ctx v tlsc = Some p \<and> ctx_mem v p = Some d \<and>
    (rule_work_pending (rule d) \<or> 0 < add_ctx d) \<and> resync_sync env = [] \<and>
    (\<forall>x \<in> set (sleeps env). snd x = []) \<and>
    refcnt (resync d) - (if work_pending (resync d) then 1 else 0) \<noteq> 1"
  show "\<exists>u n. 0 < n \<and> mlx5e_ktls_del_rx K env tlsc v = Inr u \<and>
         driver_ctx u tlsc = None \<and> ctx_mem u p = None \<and>
         trace u = trace v @ [Cancel_rule_work p (rule_work_pending (rule d)),
                              Cancel_resync_work p (work_pending (resync d))]
           @ (if work_pending (resync d) then [Refcount_dec p] else [])
           @ replicate n (Msleep 20)
           @ [Netdev_warn (refcnt (resync d) - (if work_pending (resync d) then 1 else 0))]
           @ (case rule_handle (rule d) of None \<Rightarrow> [] | Some r \<Rightarrow> [Fs_del_sk r])
           @ [Destroy_tir (tirn d), Destroy_key (key_id d), Kfree_ctx p]"
    by (rule del_rx_timeout) (use a in simp_all)
next
  assume a: "wait_for_resync K p senv j w = Inr (j', w')"
  from wait_loop_first [OF a [unfolded wait_for_resync_def]]
  show "\<exists>n. (\<forall>i<n. count_read K p senv i j w \<noteq> Some 1) \<and>
         ((after_sleeps K senv n (j, w) = Inr (j', w') \<and> count_read K p senv n j w = Some 1)
          \<or> (0 < n \<and> j + msecs_to_jiffies K MLX5E_KTLS_RX_RESYNC_TIMEOUT \<le> j' \<and>
              (\<exists>wn r. after_sleeps K senv n (j, w) = Inr (j', wn) \<and>
                 count_read K p senv (n - 1) j w = Some r \<and> w' = emit (Netdev_warn r) wn)))" .
next
  assume a: "after_sleeps K senv n (j, w) = Inr (jn, wn) \<and> count_read K p senv n j w = Some 1 \<and>
    (\<forall>i<n. \<exists>r. count_read K p senv i j w = Some r \<and> r \<noteq> 1) \<and>
    (n = 0 \<or> jn < j + msecs_to_jiffies K MLX5E_KTLS_RX_RESYNC_TIMEOUT)"
  then have 1: "after_sleeps K senv n (j, w) = Inr (jn, wn)"
    and 2: "count_read K p senv n j w = Some 1"
    and 3: "\<forall>i<n. \<exists>r. count_read K p senv i j w = Some r \<and> r \<noteq> 1"
    and 4: "n = 0 \<or> jn < j + msecs_to_jiffies K MLX5E_KTLS_RX_RESYNC_TIMEOUT"
    by simp_all
  from 1 2 obtain cn where cn: "ctx_mem wn p = Some cn" "refcnt (resync cn) = 1"
    by (auto simp: count_read_def)
  show "wait_for_resync K p senv j w = Inr (jn, wn)"
    unfolding wait_for_resync_def by (rule wait_loop_prompt [OF 1 cn 3 4])
qed

theorem destroy_waits_for_resync_witness:
  "(\<exists>w'. driver_ctx w_del 5 = Some 1 \<and>
     mlx5e_ktls_del_rx K_ex env_late 5 w_del = Inr w' \<and> ctx_mem w' 1 = None \<and>
     trace w' = [Cancel_rule_work 1 False, Cancel_resync_work 1 False, Msleep 20, Msleep 20,
                 Refcount_dec 1, Kfree_buf 2, Fs_del_sk 4, Destroy_tir 7, Destroy_key 9, Kfree_ctx 1]) \<and>
   (\<exists>w'. wait_for_resync K_ex 1 (sleeps env_first) 100 (del_mark 5 1 w_del) = Inr (106, w') \<and>
     trace w' = [Msleep 20, Refcount_dec 1, Kfree_buf 2]) \<and>
   (\<exists>w'. mlx5e_ktls_del_rx K_ex env_first 5 w_del = Inr w' \<and>
     trace w' = [Cancel_rule_work 1 False, Cancel_resync_work 1 False, Msleep 20,
                 Refcount_dec 1, Kfree_buf 2, Fs_del_sk 4, Destroy_tir 7, Destroy_key 9, Kfree_ctx 1])"
proof -
  have "\<exists>w'. mlx5e_ktls_del_rx K_ex env_late 5 w_del = Inr w' \<and>
     trace w' = [Cancel_rule_work 1 False, Cancel_resync_work 1 False, Msleep 20, Msleep 20,
                 Refcount_dec 1, Kfree_buf 2, Fs_del_sk 4, Destroy_tir 7, Destroy_key 9, Kfree_ctx 1]"
    by (simp add: mlx5e_ktls_del_rx_def mlx5e_get_ktls_rx_priv_ctx_def del_mark_def
        del_sync_rule_def del_sync_resync_def cancel_rule_work_def cancel_resync_work_def
        wait_for_completion_def mlx5e_set_ktls_rx_priv_ctx_def
        w_del_def w_inflight_def w_busy_def w_ex_def ctx_ex_def env_late_def
        wait_for_resync_def wait_for_resync_loop.simps K_ex_def MLX5E_KTLS_RX_RESYNC_TIMEOUT_def
        run_conc_def mlx5e_ktls_handle_get_psv_completion_def wi_ex_def buf_ex_def
        refcount_dec_def kfree_buf_def ctx_upd_def emit_def del_release_def stats_upd_def Let_def)
  then obtain w' where w': "mlx5e_ktls_del_rx K_ex env_late 5 w_del = Inr w'"
    "trace w' = [Cancel_rule_work 1 False, Cancel_resync_work 1 False, Msleep 20, Msleep 20,
                 Refcount_dec 1, Kfree_buf 2, Fs_del_sk 4, Destroy_tir 7, Destroy_key 9, Kfree_ctx 1]"
    by blast
  have s: "driver_ctx w_del 5 = Some 1"
    by (simp add: w_del_def w_inflight_def w_busy_def w_ex_def)
  note T = destroy_waits_for_resync [where v = w_del and tlsc = 5 and p = 1 and K = K_ex
      and env = env_late and v' = w', THEN conjunct2, THEN conjunct2, THEN conjunct1]
  from T s w'(1) have "ctx_mem w' 1 = None" by simp
  with s w' have A: "\<exists>w'. driver_ctx w_del 5 = Some 1 \<and>
     mlx5e_ktls_del_rx K_ex env_late 5 w_del = Inr w' \<and> ctx_mem w' 1 = None \<and>
     trace w' = [Cancel_rule_work 1 False, Cancel_resync_work 1 False, Msleep 20, Msleep 20,
                 Refcount_dec 1, Kfree_buf 2, Fs_del_sk 4, Destroy_tir 7, Destroy_key 9, Kfree_ctx 1]"
    by blast
  let ?w = "del_mark 5 1 w_del"
  have "\<exists>wn. after_sleeps K_ex (sleeps env_first) 1 (100, ?w) = Inr (106, wn) \<and>
     trace wn = [Msleep 20, Refcount_dec 1, Kfree_buf 2] \<and>
     count_read K_ex 1 (sleeps env_first) 1 100 ?w = Some 1"
    by (simp add: count_read_def env_first_def del_mark_def mlx5e_set_ktls_rx_priv_ctx_def
        w_del_def w_inflight_def w_busy_def w_ex_def ctx_ex_def K_ex_def
        run_conc_def mlx5e_ktls_handle_get_psv_completion_def wi_ex_def buf_ex_def
        refcount_dec_def kfree_buf_def ctx_upd_def emit_def stats_upd_def Let_def)
  then obtain wn where wn: "after_sleeps K_ex (sleeps env_first) 1 (100, ?w) = Inr (106, wn)"
    "trace wn = [Msleep 20, Refcount_dec 1, Kfree_buf 2]"
    "count_read K_ex 1 (sleeps env_first) 1 100 ?w = Some 1"
    by blast
  have c0: "\<forall>i<1. \<exists>r. count_read K_ex 1 (sleeps env_first) i 100 ?w = Some r \<and> r \<noteq> 1"
    by (simp add: count_read_def del_mark_def mlx5e_set_ktls_rx_priv_ctx_def ctx_upd_def
        w_del_def w_inflight_def w_busy_def w_ex_def ctx_ex_def)
  have lt: "(1::nat) = 0 \<or> 106 < 100 + msecs_to_jiffies K_ex MLX5E_KTLS_RX_RESYNC_TIMEOUT"
    by (simp add: K_ex_def MLX5E_KTLS_RX_RESYNC_TIMEOUT_def)
  note P = destroy_waits_for_resync [where K = K_ex and senv = "sleeps env_first" and n = 1
      and j = 100 and w = ?w and jn = 106 and wn = wn and p = 1, THEN conjunct2, THEN conjunct2,
      THEN conjunct2, THEN conjunct2, THEN conjunct2]
  have "wait_for_resync K_ex 1 (sleeps env_first) 100 ?w = Inr (106, wn)"
    by (rule P [THEN mp]) (intro conjI wn(1) wn(3) c0 lt)
  with wn(2) have B: "\<exists>w'. wait_for_resync K_ex 1 (sleeps env_first) 100 ?w = Inr (106, w') \<and>
     trace w' = [Msleep 20, Refcount_dec 1, Kfree_buf 2]"
    by blast
  have C: "\<exists>w'. mlx5e_ktls_del_rx K_ex env_first 5 w_del = Inr w' \<and>
     trace w' = [Cancel_rule_work 1 False, Cancel_resync_work 1 False, Msleep 20,
                 Refcount_dec 1, Kfree_buf 2, Fs_del_sk 4, Destroy_tir 7, Destroy_key 9, Kfree_ctx 1]"
    by (simp add: mlx5e_ktls_del_rx_def mlx5e_get_ktls_rx_priv_ctx_def del_mark_def
        del_sync_rule_def del_sync_resync_def cancel_rule_work_def cancel_resync_work_def
        wait_for_completion_def mlx5e_set_ktls_rx_priv_ctx_def
        w_del_def w_inflight_def w_busy_def w_ex_def ctx_ex_def env_first_def
        wait_for_resync_def wait_for_resync_loop.simps K_ex_def MLX5E_KTLS_RX_RESYNC_TIMEOUT_def
        run_conc_def mlx5e_ktls_handle_get_psv_completion_def wi_ex_def buf_ex_def
        refcount_dec_def kfree_buf_def ctx_upd_def emit_def del_release_def stats_upd_def Let_def)
  from A B C show ?thesis by blast
qed

subsection \<open>The accounting is kept by every action\<close>




















































subsection \<open>Reference count accounting\<close>



end
